theory Spec2Isabelle
  imports Main "HOL-Library.Word"
begin

unbundle bit_operations_syntax

section \<open>The nephelometer driver (mkndaq/inst/neph.py), binary protocol core\<close>

text \<open>
  Python \<open>bytes\<close> are lists of 8-bit words, Python \<open>int\<close> is \<open>int\<close>, Python \<open>str\<close>
  is \<open>string\<close>. Every exception the modelled code can raise is a value of
  \<open>exn\<close>; a function that can raise returns \<open>exn + 'a\<close> with \<open>Inl\<close> the
  exception. The calls \<open>n.to_bytes(k)\<close> and \<open>int.from_bytes(b)\<close> are used by the
  source without a byte order, which is big-endian (the default since Python 3.11).
\<close>

type_synonym byte = "8 word"
type_synonym bytes = "byte list"

datatype exn =
    ValueError | OverflowError | IndexError | KeyError | TypeError
  | StructError | UnicodeDecodeError | OSError | TimeoutError | Warning

subsection \<open>Python built-ins used by the driver\<close>

text \<open>\<open>int.from_bytes(b)\<close>: unsigned, big-endian; the empty sequence gives 0.\<close>

definition from_bytes :: "bytes \<Rightarrow> int" where
  "from_bytes b = foldl (\<lambda>acc x. acc * 256 + uint x) 0 b"

text \<open>\<open>n.to_bytes(k)\<close>: unsigned, big-endian, OverflowError when n is negative or
  does not fit into k bytes.\<close>

definition to_bytes :: "int \<Rightarrow> nat \<Rightarrow> exn + bytes" where
  "to_bytes n k =
     (if n < 0 \<or> 256 ^ k \<le> n then Inl OverflowError
      else Inr (map (\<lambda>i. word_of_int (n div 256 ^ (k - 1 - i))) [0..<k]))"

text \<open>\<open>bytes([a, b, ...])\<close>: ValueError unless every element is in range(256).\<close>

definition bytes_of_ints :: "int list \<Rightarrow> exn + bytes" where
  "bytes_of_ints xs =
     (if \<forall>x\<in>set xs. 0 \<le> x \<and> x < 256 then Inr (map word_of_int xs) else Inl ValueError)"

text \<open>The slice \<open>b[i:j]\<close> for \<open>0 \<le> i\<close>, \<open>0 \<le> j\<close>: clipped to the sequence, never raises.\<close>

definition pyslice :: "'a list \<Rightarrow> nat \<Rightarrow> nat \<Rightarrow> 'a list" where
  "pyslice b i j = drop i (take j b)"

text \<open>The slice \<open>b[i:-k]\<close> for \<open>0 \<le> i\<close>, \<open>0 < k\<close>: the end counts from the back.\<close>

definition pyslice_from_end :: "'a list \<Rightarrow> nat \<Rightarrow> nat \<Rightarrow> 'a list" where
  "pyslice_from_end b i k = drop i (take (length b - k) b)"

text \<open>\<open>b[i]\<close> for \<open>0 \<le> i\<close>: IndexError out of range.\<close>

definition index :: "'a list \<Rightarrow> nat \<Rightarrow> exn + 'a" where
  "index b i = (if i < length b then Inr (b ! i) else Inl IndexError)"

subsection \<open>\<open>_checksum\<close>\<close>

text \<open>
  \<open>cs = bytes([0])\<close>, then for every byte of x:
  \<open>cs = bytes([a^b for a,b in zip(cs, bytes([x[i]]))])\<close>. The handler of the source
  is not reachable for a bytes argument.
\<close>

definition checksum :: "bytes \<Rightarrow> bytes" where
  "checksum x = foldl (\<lambda>cs xi. map (\<lambda>(a, b). a XOR b) (zip cs [xi])) [0] x"

subsection \<open>\<open>_acoem_construct_message\<close>\<close>

text \<open>
  The first argument is the attribute \<open>self.__serial_id\<close>. Nothing is caught in this
  function: \<open>to_bytes\<close> and \<open>bytes([...])\<close> raise to the caller.
\<close>

definition acoem_construct_message :: "int \<Rightarrow> int \<Rightarrow> int \<Rightarrow> bytes \<Rightarrow> exn + bytes" where
  "acoem_construct_message serial_id command parameter_id payload =
     (case (if parameter_id > 0 then to_bytes parameter_id 4 else Inr []) of
        Inl e \<Rightarrow> Inl e
      | Inr msg_data0 \<Rightarrow>
          let msg_data = (if length payload > 0 then msg_data0 @ payload else msg_data0);
              msg_len = int (length msg_data)
          in (case bytes_of_ints [2, serial_id, command, 3] of
                Inl e \<Rightarrow> Inl e
              | Inr head \<Rightarrow>
                 (case to_bytes msg_len 2 of
                    Inl e \<Rightarrow> Inl e
                  | Inr len_bytes \<Rightarrow>
                      let msg = head @ len_bytes @ msg_data
                      in Inr (msg @ checksum msg @ [4]))))"

subsection \<open>\<open>_acoem_decode_response\<close>\<close>

text \<open>
  \<open>response_length = int(int.from_bytes(response[4:6]) / 4)\<close>: the quotient of a
  number below 65536 by 4 is exact in floating point up to the fraction that
  \<open>int\<close> cuts off, so this is the integer quotient. The loop runs over
  \<open>range(6, (response_length + 1) * 4 + 2, 4)\<close>; slices never raise.
\<close>

definition response_length :: "bytes \<Rightarrow> nat" where
  "response_length response = nat (from_bytes (pyslice response 4 6) div 4)"

definition range_step4 :: "nat \<Rightarrow> nat \<Rightarrow> nat list" where
  "range_step4 start stop = map (\<lambda>k. start + 4 * k) [0..<(stop + 3 - start) div 4]"

definition acoem_decode_response :: "bytes \<Rightarrow> int list" where
  "acoem_decode_response response =
     map (\<lambda>i. from_bytes (pyslice response i (i + 4)))
       (range_step4 6 ((response_length response + 1) * 4 + 2))"

subsection \<open>\<open>datetime.datetime\<close>\<close>

text \<open>
  A naive datetime (no time zone). The constructor call
  \<open>datetime.datetime(y, m, d, H, M, S)\<close> checks every field and raises ValueError;
  the microsecond is 0 then.
\<close>

record datetime =
  year :: int
  month :: int
  day :: int
  hour :: int
  minute :: int
  second :: int
  microsecond :: int

definition is_leap :: "int \<Rightarrow> bool" where
  "is_leap y = (y mod 4 = 0 \<and> (y mod 100 \<noteq> 0 \<or> y mod 400 = 0))"

definition days_in_month :: "int \<Rightarrow> int \<Rightarrow> int" where
  "days_in_month y m =
     (if m = 2 then (if is_leap y then 29 else 28)
      else if m = 4 \<or> m = 6 \<or> m = 9 \<or> m = 11 then 30 else 31)"

definition mk_datetime :: "int \<Rightarrow> int \<Rightarrow> int \<Rightarrow> int \<Rightarrow> int \<Rightarrow> int \<Rightarrow> exn + datetime" where
  "mk_datetime y m d H M S =
     (if 1 \<le> y \<and> y \<le> 9999 \<and> 1 \<le> m \<and> m \<le> 12 \<and> 1 \<le> d \<and> d \<le> days_in_month y m
         \<and> 0 \<le> H \<and> H \<le> 23 \<and> 0 \<le> M \<and> M \<le> 59 \<and> 0 \<le> S \<and> S \<le> 59
      then Inr \<lparr>year = y, month = m, day = d, hour = H, minute = M, second = S, microsecond = 0\<rparr>
      else Inl ValueError)"

text \<open>\<open>datetime.datetime(1111, 1, 1)\<close>, the value the handlers of the driver return.\<close>

definition datetime_1111 :: datetime where
  "datetime_1111 =
     \<lparr>year = 1111, month = 1, day = 1, hour = 0, minute = 0, second = 0, microsecond = 0\<rparr>"

subsection \<open>Strings: \<open>bin\<close>, \<open>str\<close>, \<open>zfill\<close>, \<open>int(s, base=2)\<close>, \<open>strftime\<close>\<close>

definition digit_char :: "nat \<Rightarrow> char" where
  "digit_char d = char_of (48 + d)"

fun bin_digits :: "nat \<Rightarrow> string" where
  "bin_digits n = (if n < 2 then [digit_char n] else bin_digits (n div 2) @ [digit_char (n mod 2)])"

fun dec_digits :: "nat \<Rightarrow> string" where
  "dec_digits n = (if n < 10 then [digit_char n] else dec_digits (n div 10) @ [digit_char (n mod 10)])"

declare bin_digits.simps [simp del]
declare dec_digits.simps [simp del]

text \<open>\<open>bin(n)\<close> and \<open>str(n)\<close> for an int.\<close>

definition bin :: "int \<Rightarrow> string" where
  "bin n = (if n < 0 then ''-0b'' @ bin_digits (nat (- n)) else ''0b'' @ bin_digits (nat n))"

definition str_of_int :: "int \<Rightarrow> string" where
  "str_of_int n = (if n < 0 then ''-'' @ dec_digits (nat (- n)) else dec_digits (nat n))"

text \<open>\<open>s.zfill(width)\<close>: zeros are put after a leading sign; a string that is long
  enough is returned as it is.\<close>

definition zfill :: "string \<Rightarrow> nat \<Rightarrow> string" where
  "zfill s width =
     (if width \<le> length s then s
      else (case s of
              c # rest \<Rightarrow>
                if c = CHR ''+'' \<or> c = CHR ''-''
                then c # replicate (width - length s) CHR ''0'' @ rest
                else replicate (width - length s) CHR ''0'' @ s
            | [] \<Rightarrow> replicate width CHR ''0''))"

text \<open>
  \<open>int(s, base=2)\<close>: an optional sign, an optional prefix \<open>0b\<close> or \<open>0B\<close>, then
  at least one binary digit and nothing else; ValueError otherwise. Python also
  accepts white space around the literal and single underscores between digits;
  neither occurs in a string put together from \<open>bin\<close> and \<open>zfill\<close>, whose characters
  are \<open>-\<close>, \<open>0\<close>, \<open>1\<close> and \<open>b\<close>, so both are left out.
\<close>

definition bits_value :: "string \<Rightarrow> int" where
  "bits_value s = foldl (\<lambda>acc c. 2 * acc + (if c = CHR ''1'' then 1 else 0)) 0 s"

definition is_bits :: "string \<Rightarrow> bool" where
  "is_bits s = (\<forall>c\<in>set s. c = CHR ''0'' \<or> c = CHR ''1'')"

definition unsigned_base2 :: "string \<Rightarrow> exn + int" where
  "unsigned_base2 s =
     (let body = (if take 2 s = ''0b'' \<or> take 2 s = ''0B'' then drop 2 s else s)
      in if body \<noteq> [] \<and> is_bits body then Inr (bits_value body) else Inl ValueError)"

definition int_base2 :: "string \<Rightarrow> exn + int" where
  "int_base2 s =
     (case s of
        c # rest \<Rightarrow>
          if c = CHR ''-'' then map_sum id uminus (unsigned_base2 rest)
          else if c = CHR ''+'' then unsigned_base2 rest
          else unsigned_base2 s
      | [] \<Rightarrow> Inl ValueError)"

text \<open>\<open>dtm.strftime('%Y%m%d%H%M%S')\<close>. The years that reach it are 1111 and 2000
  onwards, which have four digits on every platform.\<close>

definition pad :: "nat \<Rightarrow> int \<Rightarrow> string" where
  "pad width n = zfill (str_of_int n) width"

definition strftime_YmdHMS :: "datetime \<Rightarrow> string" where
  "strftime_YmdHMS d =
     pad 4 (year d) @ pad 2 (month d) @ pad 2 (day d) @ pad 2 (hour d) @ pad 2 (minute d)
       @ pad 2 (second d)"

subsection \<open>\<open>_acoem_timestamp_to_datetime\<close>\<close>

text \<open>
  The body of the \<open>try\<close>, then the function with its handler. The handler catches
  every exception, logs and prints it and returns \<open>datetime.datetime(1111, 1, 1)\<close>;
  the second component of the result is what was printed. (The attribute
  \<open>self._log\<close> tested by the handler is taken to be set.)
\<close>

definition acoem_timestamp_fields :: "int \<Rightarrow> int \<times> int \<times> int \<times> int \<times> int \<times> int" where
  "acoem_timestamp_fields timestamp =
     (let dtm = timestamp;
          SS = dtm mod 64; dtm = dtm div 64;
          MM = dtm mod 64; dtm = dtm div 64;
          HH = dtm mod 32; dtm = dtm div 32;
          dd = dtm mod 32; dtm = dtm div 32;
          mm = dtm mod 16;
          yyyy = dtm div 16 + 2000
      in (yyyy, mm, dd, HH, MM, SS))"

definition acoem_timestamp_to_datetime_try :: "int \<Rightarrow> exn + datetime" where
  "acoem_timestamp_to_datetime_try timestamp =
     (case acoem_timestamp_fields timestamp of
        (yyyy, mm, dd, HH, MM, SS) \<Rightarrow> mk_datetime yyyy mm dd HH MM SS)"

definition acoem_timestamp_to_datetime :: "int \<Rightarrow> datetime \<times> exn list" where
  "acoem_timestamp_to_datetime timestamp =
     (case acoem_timestamp_to_datetime_try timestamp of
        Inr d \<Rightarrow> (d, [])
      | Inl err \<Rightarrow> (datetime_1111, [err]))"

subsection \<open>\<open>_acoem_datetime_to_timestamp\<close>\<close>

text \<open>
  Five fields are \<open>bin(x)[2:].zfill(w)\<close>; the year is \<open>bin(year - 2000).zfill(6)\<close>,
  with the prefix left in place. The handler returns \<open>b''\<close>.
\<close>

definition acoem_datetime_to_timestamp_try :: "datetime \<Rightarrow> exn + bytes" where
  "acoem_datetime_to_timestamp_try dtm =
     (let SS = zfill (drop 2 (bin (second dtm))) 6;
          MM = zfill (drop 2 (bin (minute dtm))) 6;
          HH = zfill (drop 2 (bin (hour dtm))) 5;
          dd = zfill (drop 2 (bin (day dtm))) 5;
          mm = zfill (drop 2 (bin (month dtm))) 4;
          yyyy = zfill (bin (year dtm - 2000)) 6
      in (case int_base2 (yyyy @ mm @ dd @ HH @ MM @ SS) of
            Inl e \<Rightarrow> Inl e
          | Inr n \<Rightarrow> to_bytes n 4))"

definition acoem_datetime_to_timestamp :: "datetime \<Rightarrow> bytes" where
  "acoem_datetime_to_timestamp dtm =
     (case acoem_datetime_to_timestamp_try dtm of Inr b \<Rightarrow> b | Inl err \<Rightarrow> [])"

subsection \<open>Dictionaries and the values stored in a logged record\<close>

text \<open>
  A record of logged data is a Python dict whose keys are parameter ids (int) and the
  two strings \<open>'dtm'\<close> and \<open>'logging_interval'\<close>. Its values are raw bytes, floats,
  a string and an int. A float made by \<open>struct.unpack('>f', v)\<close> is represented by
  the 32 bits it was read from (big-endian IEEE-754 binary32); nothing proved below depends
  on floating-point arithmetic. A dict is the list of its items in insertion order;
  \<open>d[k] = v\<close> replaces the value of a key that is present and appends a new key.
\<close>

datatype pykey = KInt int | KStr string

datatype pyval = VBytes bytes | VFloat "32 word" | VStr string | VInt int

type_synonym pydict = "(pykey \<times> pyval) list"

fun dict_set :: "pydict \<Rightarrow> pykey \<Rightarrow> pyval \<Rightarrow> pydict" where
  "dict_set [] k v = [(k, v)]"
| "dict_set ((k', v') # d) k v = (if k' = k then (k', v) # d else (k', v') # dict_set d k v)"

text \<open>\<open>dict(zip(keys, values))\<close>.\<close>

definition dict_of_zip :: "pykey list \<Rightarrow> pyval list \<Rightarrow> pydict" where
  "dict_of_zip ks vs = foldl (\<lambda>d (k, v). dict_set d k v) [] (zip ks vs)"

text \<open>
  \<open>struct.unpack('>f', v)[0] if (k>1000 and len(v)>0) else b''\<close> for one item:
  \<open>struct.error\<close> unless v has exactly four bytes.
\<close>

fun unpack_item :: "pykey \<times> pyval \<Rightarrow> exn + pykey \<times> pyval" where
  "unpack_item (KInt k, VBytes v) =
     (if k > 1000 \<and> length v > 0
      then (if length v = 4 then Inr (KInt k, VFloat (word_of_int (from_bytes v)))
            else Inl StructError)
      else Inr (KInt k, VBytes []))"
| "unpack_item (k, v) = Inl TypeError"

text \<open>\<open>for k, v in data.items(): data[k] = ...\<close>: the items in order, stopping at
  the first exception.\<close>

fun unpack_items :: "pydict \<Rightarrow> exn + pydict" where
  "unpack_items [] = Inr []"
| "unpack_items (kv # d) =
     (case unpack_item kv of
        Inl e \<Rightarrow> Inl e
      | Inr kv' \<Rightarrow> (case unpack_items d of Inl e \<Rightarrow> Inl e | Inr d' \<Rightarrow> Inr (kv' # d')))"

subsection \<open>\<open>_acoem_decode_logged_data\<close>\<close>

definition message_length :: "bytes \<Rightarrow> nat" where
  "message_length response = nat (from_bytes (pyslice response 4 6) div 4)"

definition response_body :: "bytes \<Rightarrow> bytes" where
  "response_body response = pyslice_from_end response 6 2"

definition fields_per_record :: "bytes \<Rightarrow> nat" where
  "fields_per_record response = nat (from_bytes (pyslice (response_body response) 12 16))"

definition items_per_record :: "bytes \<Rightarrow> nat" where
  "items_per_record response = fields_per_record response + 4"

definition number_of_records :: "bytes \<Rightarrow> nat" where
  "number_of_records response = message_length response div items_per_record response"

text \<open>\<open>[response_body[(i*items_per_record*4):((i+1)*(items_per_record*4)-1)]
  for i in range(number_of_records)]\<close>\<close>

definition records :: "bytes \<Rightarrow> bytes list" where
  "records response =
     map (\<lambda>i. pyslice (response_body response)
                 (i * items_per_record response * 4)
                 ((i + 1) * (items_per_record response * 4) - 1))
       [0..<number_of_records response]"

text \<open>The body of \<open>if records[i][0]==1\<close>: the new key list.\<close>

definition header_keys :: "bytes \<Rightarrow> int list" where
  "header_keys r =
     (let number_of_fields = nat (from_bytes (pyslice r 12 16))
      in map (\<lambda>j. from_bytes (pyslice r (16 + j * 4) (16 + (j + 1) * 4))) [0..<number_of_fields])"

text \<open>The body of \<open>if records[i][0]==0\<close>: the new value of \<open>data\<close>. What the
  timestamp decoder prints is dropped here.\<close>

definition data_record :: "int list \<Rightarrow> bytes \<Rightarrow> exn + pydict" where
  "data_record keys r =
     (let number_of_fields = nat (from_bytes (pyslice r 12 16));
          values = map (\<lambda>j. pyslice r (16 + j * 4) (16 + (j + 1) * 4)) [0..<number_of_fields]
      in (case unpack_items (dict_of_zip (map KInt keys) (map VBytes values)) of
            Inl e \<Rightarrow> Inl e
          | Inr data \<Rightarrow>
              Inr (dict_set
                     (dict_set data (KStr ''dtm'')
                        (VStr (strftime_YmdHMS
                                 (fst (acoem_timestamp_to_datetime (from_bytes (pyslice r 4 8)))))))
                     (KStr ''logging_interval'') (VInt (from_bytes (pyslice r 8 12))))))"

text \<open>
  The loop \<open>for i in range(number_of_records)\<close> over the record slices, with the
  loop state \<open>keys\<close>, \<open>data\<close> and \<open>all\<close>. \<open>records[i][0]\<close> raises IndexError on an
  empty pyslice; \<open>all.append(data)\<close> is the last statement of the loop body, outside
  both \<open>if\<close>s.
\<close>

fun decode_loop :: "bytes list \<Rightarrow> int list \<Rightarrow> pydict \<Rightarrow> pydict list \<Rightarrow> exn + pydict list" where
  "decode_loop [] keys data all = Inr all"
| "decode_loop (r # rs) keys data all =
     (case index r 0 of
        Inl e \<Rightarrow> Inl e
      | Inr record_type \<Rightarrow>
          let keys' = (if record_type = 1 then header_keys r else keys)
          in if record_type = 0
             then (case data_record keys' r of
                     Inl e \<Rightarrow> Inl e
                   | Inr data' \<Rightarrow> decode_loop rs keys' data' (all @ [data']))
             else decode_loop rs keys' data (all @ [data]))"

text \<open>
  The value of the loop variable \<open>keys\<close> after the loop body has run for the record
  slices rs, having been \<open>keys\<close> before: the key list of the last header among them.
\<close>

fun keys_after :: "bytes list \<Rightarrow> int list \<Rightarrow> int list" where
  "keys_after [] keys = keys"
| "keys_after (r # rs) keys =
     keys_after rs (if index r 0 = Inr 1 then header_keys r else keys)"

text \<open>The function has no handler: \<open>response[2]\<close> and everything in the loop raise
  to the caller.\<close>

definition acoem_decode_logged_data :: "bytes \<Rightarrow> exn + pydict list" where
  "acoem_decode_logged_data response =
     (let data = []; all = [data]
      in (case index response 2 of
            Inl e \<Rightarrow> Inl e
          | Inr command \<Rightarrow>
              if command = 7 then decode_loop (records response) [] data all
              else Inr [[]]))"

subsection \<open>The transport\<close>

text \<open>
  \<open>tcpip_comm\<close> opens a socket of its own for every call. What the instrument does
  on that connection is a parameter: the connection is refused, or it is set up and
  the successive calls of \<open>s.recv(1024)\<close> return the listed chunks, or raise; after
  the last listed event the instrument stays silent and the socket times out
  (\<open>s.settimeout\<close> is called first). A peer that closes the connection, after which
  every \<open>recv\<close> returns \<open>b''\<close> at once, is listed as far as it is read; that the
  legacy loop would then never end is outside this model. \<open>s.sendall\<close> is taken to
  succeed on a connection that was set up. The first event of a connection is what
  the \<open>recv\<close> that clears the buffer gets, before the message is sent.
\<close>

datatype recv_event = Data bytes | RecvRaises exn

datatype connection = ConnectRaises exn | Connected "recv_event list"

fun recv :: "recv_event list \<Rightarrow> (exn + bytes) \<times> recv_event list" where
  "recv [] = (Inl TimeoutError, [])"
| "recv (Data d # es) = (Inr d, es)"
| "recv (RecvRaises e # es) = (Inl e, es)"

definition endswith :: "bytes \<Rightarrow> bytes \<Rightarrow> bool" where
  "endswith b suffix = (take (length suffix) (rev b) = rev suffix)"

text \<open>\<open>b.strip()\<close>: ASCII white space is removed on both sides.\<close>

definition is_space :: "byte \<Rightarrow> bool" where
  "is_space c = (c = 32 \<or> c = 9 \<or> c = 10 \<or> c = 11 \<or> c = 12 \<or> c = 13)"

definition strip :: "bytes \<Rightarrow> bytes" where
  "strip b = rev (dropWhile is_space (rev (dropWhile is_space b)))"

text \<open>
  The loop of the binary dialect:
  \<^verbatim>\<open>
  while not rcvd.endswith(b'\x04'):
      data = s.recv(1024)
      rcvd += data
      return rcvd
  \<close>
  The \<open>return\<close> is a statement of the loop body. Were the loop not entered, control
  would reach the end of the function, which returns None.
\<close>

definition acoem_read :: "bytes \<Rightarrow> recv_event list \<Rightarrow> exn + bytes option" where
  "acoem_read rcvd es =
     (if \<not> endswith rcvd [4]
      then (case recv es of
              (Inl e, es') \<Rightarrow> Inl e
            | (Inr data, es') \<Rightarrow> Inr (Some (rcvd @ data)))
      else Inr None)"

text \<open>
  The loop of the legacy dialect:
  \<^verbatim>\<open>
  while not (rcvd.endswith(b'\r\n') or rcvd.endswith(b'\r\n\n')):
      data = s.recv(1024)
      rcvd += data
  return rcvd.strip()
  \<close>
\<close>

fun legacy_read :: "bytes \<Rightarrow> recv_event list \<Rightarrow> exn + bytes" where
  "legacy_read rcvd [] =
     (if \<not> (endswith rcvd [13, 10] \<or> endswith rcvd [13, 10, 10]) then Inl TimeoutError
      else Inr rcvd)"
| "legacy_read rcvd (ev # es) =
     (if \<not> (endswith rcvd [13, 10] \<or> endswith rcvd [13, 10, 10])
      then (case ev of RecvRaises e \<Rightarrow> Inl e | Data data \<Rightarrow> legacy_read (rcvd @ data) es)
      else Inr rcvd)"

text \<open>The bytes that the data events of a list of events deliver, in order.\<close>

fun received :: "recv_event list \<Rightarrow> bytes" where
  "received [] = []"
| "received (Data d # es) = d @ received es"
| "received (RecvRaises e # es) = received es"

text \<open>
  \<open>tcpip_comm\<close>: the result is the list of messages that were sent and the value
  returned. Every exception is caught, and \<open>b''\<close> returned.
\<close>

definition tcpip_comm :: "string \<Rightarrow> bytes \<Rightarrow> connection \<Rightarrow> bytes list \<times> bytes option" where
  "tcpip_comm protocol message conn =
     (case conn of
        ConnectRaises e \<Rightarrow> ([], Some [])
      | Connected es \<Rightarrow>
          (case recv es of
             (Inl e, es') \<Rightarrow> ([], Some [])
           | (Inr cleared, es') \<Rightarrow>
               ([message],
                let rcvd = [] in
                if protocol = ''acoem''
                then (case acoem_read rcvd es' of Inl e \<Rightarrow> Some [] | Inr r \<Rightarrow> r)
                else if protocol = ''legacy''
                then (case legacy_read rcvd es' of
                        Inl e \<Rightarrow> Some []
                      | Inr rcvd' \<Rightarrow> Some (strip rcvd'))
                else Some [])))"

subsection \<open>\<open>str.encode()\<close> and \<open>bytes.decode()\<close>\<close>

text \<open>
  A Python string is represented by its UTF-8 bytes, one \<open>char\<close> each, so two
  strings are equal exactly when their representations are. \<open>encode\<close> then copies
  the bytes, and \<open>decode\<close> raises UnicodeDecodeError unless the bytes are well-formed
  UTF-8 (no overlong forms, no surrogates, nothing above U+10FFFF).
\<close>

definition encode :: "string \<Rightarrow> bytes" where
  "encode s = map (\<lambda>c. of_nat (of_char c)) s"

definition is_cont :: "byte \<Rightarrow> bool" where
  "is_cont c = (128 \<le> c \<and> c \<le> 191)"

fun utf8_ok :: "bytes \<Rightarrow> bool" where
  "utf8_ok [] = True"
| "utf8_ok (b # bs) =
     (if b < 128 then utf8_ok bs
      else if 194 \<le> b \<and> b \<le> 223
      then 1 \<le> length bs \<and> is_cont (bs ! 0) \<and> utf8_ok (drop 1 bs)
      else if 224 \<le> b \<and> b \<le> 239
      then 2 \<le> length bs
           \<and> (if b = 224 then 160 \<le> bs ! 0 \<and> bs ! 0 \<le> 191
               else if b = 237 then 128 \<le> bs ! 0 \<and> bs ! 0 \<le> 159
               else is_cont (bs ! 0))
           \<and> is_cont (bs ! 1) \<and> utf8_ok (drop 2 bs)
      else if 240 \<le> b \<and> b \<le> 244
      then 3 \<le> length bs
           \<and> (if b = 240 then 144 \<le> bs ! 0 \<and> bs ! 0 \<le> 191
               else if b = 244 then 128 \<le> bs ! 0 \<and> bs ! 0 \<le> 143
               else is_cont (bs ! 0))
           \<and> is_cont (bs ! 1) \<and> is_cont (bs ! 2) \<and> utf8_ok (drop 3 bs)
      else False)"

definition decode :: "bytes \<Rightarrow> exn + string" where
  "decode b = (if utf8_ok b then Inr (map (\<lambda>x. char_of (unat x)) b) else Inl UnicodeDecodeError)"

subsection \<open>\<open>set_values\<close>\<close>

text \<open>
  The arguments \<open>protocol\<close> and \<open>serial_id\<close> are the attributes \<open>self.__protocol\<close> and
  \<open>self.__serial_id\<close>. The result is the list of messages sent and the value
  returned. First the body of the \<open>try\<close>, then the function with its handler, which
  catches every exception, logs and prints it and returns \<open>[]\<close>.
\<close>

definition set_values_message :: "int \<Rightarrow> int \<Rightarrow> int \<Rightarrow> exn + bytes" where
  "set_values_message serial_id parameter_id val =
     (case bytes_of_ints [0, 0, 0, val] of
        Inl e \<Rightarrow> Inl e
      | Inr payload \<Rightarrow> acoem_construct_message serial_id 5 parameter_id payload)"

definition set_values_try ::
  "string \<Rightarrow> int \<Rightarrow> int \<Rightarrow> int \<Rightarrow> connection \<Rightarrow> bytes list \<times> (exn + int list)" where
  "set_values_try protocol serial_id parameter_id val conn =
     (if protocol = ''acoem''
      then (case set_values_message serial_id parameter_id val of
              Inl e \<Rightarrow> ([], Inl e)
            | Inr message \<Rightarrow>
                (case tcpip_comm protocol message conn of
                   (sent, None) \<Rightarrow> (sent, Inl TypeError)
                 | (sent, Some response) \<Rightarrow> (sent, Inr (acoem_decode_response response))))
      else ([], Inl Warning))"

definition set_values :: "string \<Rightarrow> int \<Rightarrow> int \<Rightarrow> int \<Rightarrow> connection \<Rightarrow> bytes list \<times> int list" where
  "set_values protocol serial_id parameter_id val conn =
     (case set_values_try protocol serial_id parameter_id val conn of
        (sent, Inr items) \<Rightarrow> (sent, items)
      | (sent, Inl err) \<Rightarrow> (sent, []))"

subsection \<open>\<open>get_current_operation\<close>\<close>

text \<open>\<open>mapping = {'000': 0, '016': 2, '032': 1}\<close> and \<open>mapping[response]\<close>, which
  raises KeyError.\<close>

definition mapping :: "(string \<times> int) list" where
  "mapping = [(''000'', 0), (''016'', 2), (''032'', 1)]"

definition mapping_getitem :: "string \<Rightarrow> exn + int" where
  "mapping_getitem response =
     (case map_of mapping response of None \<Rightarrow> Inl KeyError | Some v \<Rightarrow> Inr v)"

text \<open>The legacy message \<open>f"VI{self.__serial_id}71\r".encode()\<close>.\<close>

definition legacy_operation_message :: "int \<Rightarrow> bytes" where
  "legacy_operation_message serial_id = encode (''VI'' @ str_of_int serial_id @ ''71'' @ [CHR 0x0D])"

text \<open>What the legacy branch does with the bytes that \<open>tcpip_comm\<close> returned.\<close>

definition legacy_operation_of :: "bytes option \<Rightarrow> exn + int" where
  "legacy_operation_of returned =
     (case returned of
        None \<Rightarrow> Inl TypeError
      | Some b \<Rightarrow> (case decode b of Inl e \<Rightarrow> Inl e | Inr response \<Rightarrow> mapping_getitem response))"

definition get_current_operation_try ::
  "string \<Rightarrow> int \<Rightarrow> connection \<Rightarrow> bytes list \<times> (exn + int)" where
  "get_current_operation_try protocol serial_id conn =
     (if protocol = ''acoem''
      then (let parameter_id = 4035
            in (case acoem_construct_message serial_id 4 parameter_id [] of
                  Inl e \<Rightarrow> ([], Inl e)
                | Inr message \<Rightarrow>
                    (case tcpip_comm protocol message conn of
                       (sent, None) \<Rightarrow> (sent, Inl TypeError)
                     | (sent, Some response) \<Rightarrow>
                         (sent, index (acoem_decode_response response) 0))))
      else if protocol = ''legacy''
      then (case tcpip_comm protocol (legacy_operation_message serial_id) conn of
              (sent, returned) \<Rightarrow> (sent, legacy_operation_of returned))
      else ([], Inl ValueError))"

text \<open>The handler catches every exception, logs and prints it and returns 9.\<close>

definition get_current_operation :: "string \<Rightarrow> int \<Rightarrow> connection \<Rightarrow> bytes list \<times> int" where
  "get_current_operation protocol serial_id conn =
     (case get_current_operation_try protocol serial_id conn of
        (sent, Inr state) \<Rightarrow> (sent, state)
      | (sent, Inl err) \<Rightarrow> (sent, 9))"

subsection \<open>Example inputs\<close>

text \<open>
  A response to command 7 whose length field says 52 bytes (13 words): a header record
  with the parameter ids 1001 and 1002, a data record with the floats 12.5 and -3.0,
  time stamp 0x613CF140 and logging interval 60, and one more word that starts a
  record without completing it; then a checksum byte and EOT.
\<close>

definition logged_example :: bytes where
  "logged_example =
     [2, 0, 7, 3, 0, 52,
      1, 0, 0, 0,  0, 0, 0, 0,  0, 0, 0, 0,  0, 0, 0, 2,  0, 0, 3, 233,  0, 0, 3, 234,
      0, 0, 0, 0,  97, 60, 241, 64,  0, 0, 0, 60,  0, 0, 0, 2,  65, 72, 0, 0,  192, 64, 0, 0,
      0, 0, 0, 0,  9, 4]"

text \<open>The same response with other bytes in the incomplete last record.\<close>

definition logged_example_other_tail :: bytes where
  "logged_example_other_tail =
     [2, 0, 7, 3, 0, 52,
      1, 0, 0, 0,  0, 0, 0, 0,  0, 0, 0, 0,  0, 0, 0, 2,  0, 0, 3, 233,  0, 0, 3, 234,
      0, 0, 0, 0,  97, 60, 241, 64,  0, 0, 0, 60,  0, 0, 0, 2,  65, 72, 0, 0,  192, 64, 0, 0,
      5, 6, 7, 8,  9, 4]"

text \<open>
  What the decoder returns for \<open>logged_example\<close>: the initial empty dict, the empty
  dict again for the header record, and the dict of the data record. (The last key and
  the last value are read from three bytes each, since the slices are one byte short:
  the key is 1002 div 256 = 3, and the value is dropped as that key is not above 1000.)
\<close>

definition logged_example_decoded :: "pydict list" where
  "logged_example_decoded =
     [[], [],
      [(KInt 1001, VFloat 1095237632), (KInt 3, VBytes []),
       (KStr ''dtm'', VStr ''20240430150500''), (KStr ''logging_interval'', VInt 60)]]"

section \<open>Properties\<close>

subsection \<open>Big-endian encoding, checksum\<close>

lemma checksum_eq: "checksum x = [foldl (XOR) 0 x]"
proof -
  have "foldl (\<lambda>cs xi. map (\<lambda>(a, b). a XOR b) (zip cs [xi])) [c] x = [foldl (XOR) c x]" for c
    by (induction x arbitrary: c) simp_all
  then show ?thesis by (simp add: checksum_def)
qed

lemma upt_2: "[0..<2] = [0, Suc 0]"
  by (simp add: upt_rec)

lemma upt_4: "[0..<4] = [0, 1, 2, 3]"
  by (simp add: upt_rec)

lemma to_bytes_2:
  "0 \<le> n \<Longrightarrow> n < 65536 \<Longrightarrow> to_bytes n 2 = Inr [word_of_int (n div 256), word_of_int n]"
  by (simp add: to_bytes_def upt_2)

lemma to_bytes_4:
  "0 \<le> n \<Longrightarrow> n < 4294967296 \<Longrightarrow>
   to_bytes n 4 = Inr [word_of_int (n div 16777216), word_of_int (n div 65536),
                       word_of_int (n div 256), word_of_int n]"
  by (simp add: to_bytes_def upt_4)

lemma to_bytes_overflow: "256 ^ k \<le> n \<Longrightarrow> to_bytes n k = Inl OverflowError"
  by (simp add: to_bytes_def)

lemma uint_byte_of_int: "uint (word_of_int n :: byte) = n mod 256"
  by (simp add: uint_word_of_int)

lemma from_bytes_2: "from_bytes [a, b] = uint a * 256 + uint b"
  by (simp add: from_bytes_def)

lemma from_bytes_4:
  "from_bytes [a, b, c, d] = uint a * 16777216 + uint b * 65536 + uint c * 256 + uint d"
  by (simp add: from_bytes_def)

lemma be4_digits:
  fixes n :: int
  assumes "0 \<le> n" "n < 4294967296"
  shows "(n div 16777216) mod 256 * 16777216 + (n div 65536) mod 256 * 65536
           + (n div 256) mod 256 * 256 + n mod 256 = n"
proof -
  define a where "a = n div 256"
  define b where "b = a div 256"
  define c where "c = b div 256"
  have b: "n div 65536 = b"
    using zdiv_zmult2_eq[of 256 n 256] by (simp add: a_def b_def)
  have c: "n div 16777216 = c"
    using zdiv_zmult2_eq[of 256 n 65536] b by (simp add: c_def)
  have c256: "c mod 256 = c"
    using assms c by simp
  have 1: "n = 256 * a + n mod 256"
    by (simp add: a_def)
  have 2: "a = 256 * b + a mod 256"
    by (simp add: b_def)
  have 3: "b = 256 * c + b mod 256"
    by (simp add: c_def)
  show ?thesis
    unfolding b c c256 a_def[symmetric] using 1 2 3 by linarith
qed

lemma from_bytes_be4:
  assumes "0 \<le> n" "n < 4294967296"
  shows "from_bytes [word_of_int (n div 16777216), word_of_int (n div 65536),
                     word_of_int (n div 256), word_of_int n] = n"
  unfolding from_bytes_4 uint_byte_of_int by (rule be4_digits[OF assms])

lemma bytes_of_ints_head:
  "0 \<le> s \<Longrightarrow> s < 256 \<Longrightarrow> 0 \<le> c \<Longrightarrow> c < 256 \<Longrightarrow>
   bytes_of_ints [2, s, c, 3] = Inr [2, word_of_int s, word_of_int c, 3]"
  by (simp add: bytes_of_ints_def)

lemma foldl_xor_start: "foldl (XOR) (c :: byte) x = c XOR foldl (XOR) 0 x"
proof (induction x arbitrary: c)
  case Nil
  then show ?case by simp
next
  case (Cons a x)
  have "foldl (XOR) (c XOR a) x = (c XOR a) XOR foldl (XOR) 0 x"
    by (rule Cons.IH)
  moreover have "foldl (XOR) a x = a XOR foldl (XOR) 0 x"
    by (rule Cons.IH)
  ultimately show ?case
    by (simp add: xor.assoc)
qed

text \<open>
  The checksum is the XOR of all bytes, 0 for no bytes; the checksum of a
  concatenation is the XOR of the two checksums; and a message followed by its
  checksum byte has the checksum 0.
\<close>

theorem checksum_xor:
  "checksum [] = [0]
   \<and> checksum x = [foldl (XOR) 0 x]
   \<and> checksum (a @ b) = [hd (checksum a) XOR hd (checksum b)]
   \<and> checksum (x @ checksum x) = [0]"
proof -
  have 1: "checksum (a @ b) = [hd (checksum a) XOR hd (checksum b)]"
    unfolding checksum_eq using foldl_xor_start[of "foldl (XOR) 0 a" b] by simp
  have 2: "checksum (x @ checksum x) = [0]"
    unfolding checksum_eq by simp
  show ?thesis
    using 1 2 checksum_eq[of x] checksum_eq[of "[]"] by simp
qed

subsection \<open>Frame construction\<close>

lemma acoem_construct_message_parts:
  assumes "(if parameter_id > 0 then to_bytes parameter_id 4 else Inr []) = Inr msg_data0"
      and "bytes_of_ints [2, serial_id, command, 3] = Inr head"
      and "to_bytes (int (length (msg_data0 @ payload))) 2 = Inr len_bytes"
  shows "acoem_construct_message serial_id command parameter_id payload
           = Inr ((head @ len_bytes @ msg_data0 @ payload)
                  @ [foldl (XOR) 0 (head @ len_bytes @ msg_data0 @ payload)] @ [4])"
proof -
  have md: "(if length payload > 0 then msg_data0 @ payload else msg_data0) = msg_data0 @ payload"
    by simp
  show ?thesis
    unfolding acoem_construct_message_def assms(1) sum.case md Let_def assms(2) assms(3) checksum_eq
    by simp
qed

lemma acoem_construct_message_general:
  assumes "0 \<le> serial_id" "serial_id < 256" "0 \<le> command" "command < 256"
      and "parameter_id < 4294967296"
      and "msg_data =
             (if parameter_id > 0
              then [word_of_int (parameter_id div 16777216), word_of_int (parameter_id div 65536),
                    word_of_int (parameter_id div 256), word_of_int parameter_id]
              else []) @ payload"
      and "length msg_data < 65536"
      and "msg = [2, word_of_int serial_id, word_of_int command, 3]
                 @ [word_of_int (int (length msg_data) div 256), word_of_int (int (length msg_data))]
                 @ msg_data"
  shows "acoem_construct_message serial_id command parameter_id payload
           = Inr (msg @ [foldl (XOR) 0 msg] @ [4])"
proof -
  define msg_data0 :: bytes where
    "msg_data0 = (if parameter_id > 0
              then [word_of_int (parameter_id div 16777216), word_of_int (parameter_id div 65536),
                    word_of_int (parameter_id div 256), word_of_int parameter_id]
              else [])"
  have md: "msg_data = msg_data0 @ payload"
    using assms(6) by (simp add: msg_data0_def)
  have p: "(if parameter_id > 0 then to_bytes parameter_id 4 else Inr []) = Inr msg_data0"
    using assms(5) by (simp add: msg_data0_def to_bytes_4)
  have l: "to_bytes (int (length (msg_data0 @ payload))) 2
             = Inr [word_of_int (int (length msg_data) div 256), word_of_int (int (length msg_data))]"
    using assms(7) unfolding md by (intro to_bytes_2) simp_all
  show ?thesis
    unfolding acoem_construct_message_parts[OF p bytes_of_ints_head[OF assms(1-4)] l] assms(8) md
    by simp
qed

text \<open>
  C4 (as stated): for every command byte, parameter id and payload the frame is
  returned. This fails for a payload whose length does not fit into the two length
  bytes: with 65536 payload bytes \<open>to_bytes(2)\<close> raises OverflowError and no frame is
  returned.
\<close>

theorem C4_counterexample:
  "acoem_construct_message 5 1 0 (replicate 65536 0) = Inl OverflowError"
  by (simp add: acoem_construct_message_def to_bytes_overflow bytes_of_ints_def)

text \<open>
  C4 (amended): for a station id and a command in 0..255, a parameter id below 2^32
  and a payload such that msg_data, which is the 4-byte big-endian parameter id (only
  when it is positive) followed by the payload, has fewer than 65536 bytes,
  \<open>_acoem_construct_message\<close> returns exactly
  [0x02, station id, command, 0x03] ++ (length of msg_data in 2 bytes, big-endian) ++
  msg_data ++ [checksum] ++ [0x04], the checksum being the XOR of all the bytes before
  it. For station id 5, command 1, no parameter and an empty payload the frame is
  [2, 5, 1, 3, 0, 0, 5, 4].
\<close>

theorem C4_frame_construction:
  assumes "0 \<le> serial_id" "serial_id < 256" "0 \<le> command" "command < 256"
      and "parameter_id < 4294967296"
      and "msg_data =
             (if parameter_id > 0
              then [word_of_int (parameter_id div 16777216), word_of_int (parameter_id div 65536),
                    word_of_int (parameter_id div 256), word_of_int parameter_id]
              else []) @ payload"
      and "length msg_data < 65536"
      and "msg = [2, word_of_int serial_id, word_of_int command, 3]
                 @ [word_of_int (int (length msg_data) div 256), word_of_int (int (length msg_data))]
                 @ msg_data"
  shows "acoem_construct_message serial_id command parameter_id payload
           = Inr (msg @ [foldl (XOR) 0 msg] @ [4])
         \<and> acoem_construct_message 5 1 0 [] = Inr [2, 5, 1, 3, 0, 0, 5, 4]"
proof
  show "acoem_construct_message serial_id command parameter_id payload
           = Inr (msg @ [foldl (XOR) 0 msg] @ [4])"
    using assms by (rule acoem_construct_message_general)
  show "acoem_construct_message 5 1 0 [] = Inr [2, 5, 1, 3, 0, 0, 5, 4]"
    using acoem_construct_message_general[of 5 1 0 "[]" "[]" "[2, 5, 1, 3, 0, 0]"]
    by simp
qed

theorem C4_frame_construction_witness:
  "acoem_construct_message 5 5 4035 [0, 0, 0, 2]
     = Inr [2, 5, 5, 3, 0, 8, 0, 0, 15, 195, 0, 0, 0, 2, 199, 4]"
  using C4_frame_construction[of 5 5 4035 "[0, 0, 15, 195, 0, 0, 0, 2]" "[0, 0, 0, 2]"
          "[2, 5, 5, 3, 0, 8, 0, 0, 15, 195, 0, 0, 0, 2]"]
  by simp

subsection \<open>Response decoder\<close>

lemma drop_4_nth:
  assumes "i + 4 \<le> length b"
  shows "drop i b = b ! i # b ! (i + 1) # b ! (i + 2) # b ! (i + 3) # drop (i + 4) b"
proof -
  have "drop i b = b ! i # drop (Suc i) b"
    using assms by (simp add: Cons_nth_drop_Suc)
  also have "drop (Suc i) b = b ! (i + 1) # drop (Suc (Suc i)) b"
    using assms by (simp add: Cons_nth_drop_Suc)
  also have "drop (Suc (Suc i)) b = b ! (i + 2) # drop (Suc (Suc (Suc i))) b"
    using assms by (simp add: Cons_nth_drop_Suc)
  also have "drop (Suc (Suc (Suc i))) b = b ! (i + 3) # drop (i + 4) b"
    using assms by (simp add: Cons_nth_drop_Suc[symmetric] numeral_eq_Suc)
  finally show ?thesis .
qed

lemma pyslice_take: "pyslice b i (i + k) = take k (drop i b)"
  by (simp add: pyslice_def drop_take)

lemma pyslice_4:
  "i + 4 \<le> length b \<Longrightarrow> pyslice b i (i + 4) = [b ! i, b ! (i + 1), b ! (i + 2), b ! (i + 3)]"
  unfolding pyslice_take by (subst drop_4_nth) simp_all

lemma drop_2_nth:
  assumes "i + 2 \<le> length b"
  shows "drop i b = b ! i # b ! (i + 1) # drop (i + 2) b"
proof -
  have "drop i b = b ! i # drop (Suc i) b"
    using assms by (simp add: Cons_nth_drop_Suc)
  also have "drop (Suc i) b = b ! (i + 1) # drop (i + 2) b"
    using assms by (simp add: Cons_nth_drop_Suc)
  finally show ?thesis .
qed

lemma pyslice_2:
  "i + 2 \<le> length b \<Longrightarrow> pyslice b i (i + 2) = [b ! i, b ! (i + 1)]"
  unfolding pyslice_take by (subst drop_2_nth) simp_all

lemma pyslice_4_6: "6 \<le> length b \<Longrightarrow> pyslice b 4 6 = [b ! 4, b ! 5]"
  using pyslice_2[of 4 b] by simp

lemma length_acoem_decode_response:
  "length (acoem_decode_response response) = response_length response"
  by (simp add: acoem_decode_response_def range_step4_def)

lemma nth_acoem_decode_response:
  "i < response_length response \<Longrightarrow>
   acoem_decode_response response ! i = from_bytes (pyslice response (6 + 4 * i) (6 + 4 * i + 4))"
  by (simp add: acoem_decode_response_def range_step4_def)

lemma pyslice_cong:
  assumes "length b' = length b" "\<forall>k. i \<le> k \<and> k < j \<longrightarrow> b' ! k = b ! k"
  shows "pyslice b' i j = pyslice b i j"
proof (rule nth_equalityI)
  show "length (pyslice b' i j) = length (pyslice b i j)"
    using assms(1) by (simp add: pyslice_def)
  fix k assume "k < length (pyslice b' i j)"
  then have k: "i + k < j" "i + k < length b"
    using assms(1) by (simp_all add: pyslice_def)
  then show "pyslice b' i j ! k = pyslice b i j ! k"
    using assms by (simp add: pyslice_def)
qed


lemma response_length_nth:
  "6 \<le> length response \<Longrightarrow>
   response_length response = nat ((uint (response ! 4) * 256 + uint (response ! 5)) div 4)"
  by (simp add: response_length_def pyslice_4_6 from_bytes_2)

lemma acoem_decode_response_checksum:
  assumes "6 + 4 * response_length response + 2 \<le> length response"
  shows "acoem_decode_response (response[length response - 2 := c])
           = acoem_decode_response response"
proof -
  let ?r = "response[length response - 2 := c]"
  have len: "length ?r = length response"
    by simp
  have same: "\<forall>k. 0 \<le> k \<and> k < 6 + 4 * response_length response \<longrightarrow> ?r ! k = response ! k"
    using assms by simp
  have "pyslice ?r 4 6 = pyslice response 4 6"
    using len same by (intro pyslice_cong) simp_all
  then have rl: "response_length ?r = response_length response"
    by (simp add: response_length_def)
  show ?thesis
  proof (rule nth_equalityI)
    show "length (acoem_decode_response ?r) = length (acoem_decode_response response)"
      by (simp only: length_acoem_decode_response rl)
    fix i assume "i < length (acoem_decode_response ?r)"
    then have i: "i < response_length response"
      by (simp only: length_acoem_decode_response rl)
    have "pyslice ?r (6 + 4 * i) (6 + 4 * i + 4) = pyslice response (6 + 4 * i) (6 + 4 * i + 4)"
      using len same i by (intro pyslice_cong) simp_all
    then show "acoem_decode_response ?r ! i = acoem_decode_response response ! i"
      using i by (simp only: nth_acoem_decode_response rl)
  qed
qed

text \<open>
  C6 (as stated): the value of bytes [4:6) is the number of integers returned. It is
  not: the two bytes hold a length in bytes, which the decoder divides by 4. In the
  response below they hold 8, and two integers are returned.
\<close>

theorem C6_counterexample:
  "from_bytes (pyslice [2, 5, 4, 3, 0, 8, 0, 0, 0, 1, 0, 0, 0, 2, 13, 4] 4 6) = 8
   \<and> acoem_decode_response [2, 5, 4, 3, 0, 8, 0, 0, 0, 1, 0, 0, 0, 2, 13, 4] = [1, 2]"
  by code_simp

text \<open>
  C6 (amended): \<open>_acoem_decode_response\<close> reads bytes [4:6) as a big-endian
  number of bytes and returns exactly n integers, n being that number divided by 4
  (rounded down); for a response that holds the n words (6 + 4n bytes at least), the
  i-th integer, from i = 0, is the big-endian 32-bit integer at byte offset 6 + 4i.
  The checksum byte is not looked at: in a response with room for it and the EOT
  after the n words, putting any other byte in the place of the checksum (the last
  but one) changes nothing in the result.
\<close>

theorem C6_decode_response:
  assumes "n = nat ((uint (response ! 4) * 256 + uint (response ! 5)) div 4)"
      and "6 + 4 * n \<le> length response"
  shows "length (acoem_decode_response response) = n
         \<and> (\<forall>i<n. acoem_decode_response response ! i
                     = uint (response ! (6 + 4 * i)) * 16777216
                       + uint (response ! (6 + 4 * i + 1)) * 65536
                       + uint (response ! (6 + 4 * i + 2)) * 256
                       + uint (response ! (6 + 4 * i + 3)))
         \<and> (6 + 4 * n + 2 \<le> length response \<longrightarrow>
              acoem_decode_response (response[length response - 2 := c])
                = acoem_decode_response response)"
proof -
  have n: "response_length response = n"
    using assms by (simp add: response_length_nth)
  have 1: "length (acoem_decode_response response) = n"
    by (simp only: length_acoem_decode_response n)
  have 2: "acoem_decode_response response ! i
                     = uint (response ! (6 + 4 * i)) * 16777216
                       + uint (response ! (6 + 4 * i + 1)) * 65536
                       + uint (response ! (6 + 4 * i + 2)) * 256
                       + uint (response ! (6 + 4 * i + 3))" if "i < n" for i
  proof -
    have "6 + 4 * i + 4 \<le> length response"
      using that assms(2) by simp
    then have "pyslice response (6 + 4 * i) (6 + 4 * i + 4)
                 = [response ! (6 + 4 * i), response ! (6 + 4 * i + 1),
                    response ! (6 + 4 * i + 2), response ! (6 + 4 * i + 3)]"
      by (rule pyslice_4)
    then show ?thesis
      using that n by (simp only: nth_acoem_decode_response from_bytes_4)
  qed
  have 3: "acoem_decode_response (response[length response - 2 := c])
                = acoem_decode_response response" if "6 + 4 * n + 2 \<le> length response"
    using that n acoem_decode_response_checksum[of response c] by simp
  show ?thesis
    using 1 2 3 by blast
qed

theorem C6_decode_response_witness:
  "length (acoem_decode_response [2, 5, 4, 3, 0, 8, 0, 0, 0, 1, 0, 0, 0, 2, 13, 4]) = 2
   \<and> acoem_decode_response [2, 5, 4, 3, 0, 8, 0, 0, 0, 1, 0, 0, 0, 2, 13, 4] ! 1 = 2
   \<and> acoem_decode_response [2, 5, 4, 3, 0, 8, 0, 0, 0, 1, 0, 0, 0, 2, 77, 4]
       = acoem_decode_response [2, 5, 4, 3, 0, 8, 0, 0, 0, 1, 0, 0, 0, 2, 13, 4]"
  using C6_decode_response[of 2 "[2, 5, 4, 3, 0, 8, 0, 0, 0, 1, 0, 0, 0, 2, 13, 4]" 77]
  by simp

subsection \<open>Logged-data decoder: record slices\<close>

lemma length_records: "length (records response) = number_of_records response"
  by (simp add: records_def)

lemma nth_records:
  "i < number_of_records response \<Longrightarrow>
   records response ! i
     = pyslice (response_body response) (i * items_per_record response * 4)
         ((i + 1) * (items_per_record response * 4) - 1)"
  by (simp add: records_def)

lemma items_per_record_pos: "4 \<le> items_per_record response"
  by (simp add: items_per_record_def)

lemma number_of_records_bounds:
  "number_of_records response * items_per_record response \<le> message_length response
   \<and> message_length response < (number_of_records response + 1) * items_per_record response"
proof -
  have "0 < items_per_record response" using items_per_record_pos[of response] by simp
  then show ?thesis
  unfolding number_of_records_def
  by (metis Suc_eq_plus1 div_mult_mod_eq dividend_less_div_times le_add1 mult.commute add.commute mult_Suc)
qed

lemma record_is_window_prefix:
  "pyslice body (i * ipr * 4) ((i + 1) * (ipr * 4) - 1)
     = take (ipr * 4 - 1) (pyslice body (i * ipr * 4) ((i + 1) * (ipr * 4)))"
proof (cases "ipr = 0")
  case True
  then show ?thesis by (simp add: pyslice_def)
next
  case False
  then have "(i + 1) * (ipr * 4) - 1 = i * ipr * 4 + (ipr * 4 - 1)"
    by (simp add: algebra_simps)
  then show ?thesis
    by (simp add: pyslice_def take_drop add.commute)
qed

lemma length_record:
  "(i + 1) * (ipr * 4) - 1 \<le> length body \<Longrightarrow>
   length (pyslice body (i * ipr * 4) ((i + 1) * (ipr * 4) - 1)) = ipr * 4 - 1"
  by (simp add: pyslice_def algebra_simps)


lemma pyslice_of_take: "j \<le> N \<Longrightarrow> pyslice (take N b) i j = pyslice b i j"
  by (simp add: pyslice_def min_def)

lemma records_depend_on_prefix:
  assumes "message_length response' = message_length response"
      and "fields_per_record response' = fields_per_record response"
      and "take (number_of_records response * items_per_record response * 4 - 1)
             (response_body response')
           = take (number_of_records response * items_per_record response * 4 - 1)
               (response_body response)"
  shows "records response' = records response"
proof -
  have ipr: "items_per_record response' = items_per_record response"
    using assms(2) by (simp add: items_per_record_def)
  have n: "number_of_records response' = number_of_records response"
    using assms(1) ipr by (simp add: number_of_records_def)
  let ?N = "number_of_records response * items_per_record response * 4 - 1"
  have "pyslice (response_body response') (i * items_per_record response * 4)
            ((i + 1) * (items_per_record response * 4) - 1)
        = pyslice (response_body response) (i * items_per_record response * 4)
            ((i + 1) * (items_per_record response * 4) - 1)"
    if "i < number_of_records response" for i
  proof -
    have "(i + 1) * (items_per_record response * 4)
            \<le> number_of_records response * (items_per_record response * 4)"
      using that by (intro mult_le_mono1) simp
    then have le: "(i + 1) * (items_per_record response * 4) - 1 \<le> ?N"
      by (simp add: mult.assoc)
    show ?thesis
      using pyslice_of_take[OF le, of "response_body response'" "i * items_per_record response * 4"]
            pyslice_of_take[OF le, of "response_body response" "i * items_per_record response * 4"]
            assms(3)
      by simp
  qed
  then show ?thesis
    unfolding records_def ipr n by simp
qed

lemma decode_depends_on_prefix:
  assumes "index response' 2 = index response 2"
      and "message_length response' = message_length response"
      and "fields_per_record response' = fields_per_record response"
      and "take (number_of_records response * items_per_record response * 4 - 1)
             (response_body response')
           = take (number_of_records response * items_per_record response * 4 - 1)
               (response_body response)"
  shows "acoem_decode_logged_data response' = acoem_decode_logged_data response"
  unfolding acoem_decode_logged_data_def assms(1) records_depend_on_prefix[OF assms(2-4)] ..

text \<open>
  C5: in \<open>_acoem_decode_logged_data\<close>, number_of_records is message_length divided
  by items_per_record, rounded down (items_per_record is at least 4, so the division
  is defined); the words left over belong to no record, and the bytes after the last
  whole record are never read, so an incomplete last record is dropped without an
  error: two responses that agree up to there decode alike. Record slice i is
  response_body[i*items_per_record*4 : (i+1)*items_per_record*4 - 1], that is the
  nominal window of items_per_record*4 bytes without its last byte, and has
  items_per_record*4 - 1 bytes when the body reaches that far, as it does for every
  record of a response whose body is as long as its length field says.
\<close>

theorem C5_record_partitioning:
  "0 < items_per_record response
   \<and> number_of_records response = message_length response div items_per_record response
   \<and> number_of_records response * items_per_record response \<le> message_length response
   \<and> message_length response < (number_of_records response + 1) * items_per_record response
   \<and> length (records response) = number_of_records response
   \<and> (\<forall>i<number_of_records response.
         records response ! i
           = pyslice (response_body response) (i * items_per_record response * 4)
               ((i + 1) * (items_per_record response * 4) - 1)
         \<and> records response ! i
             = take (items_per_record response * 4 - 1)
                 (pyslice (response_body response) (i * items_per_record response * 4)
                    ((i + 1) * (items_per_record response * 4)))
         \<and> ((i + 1) * (items_per_record response * 4) - 1 \<le> length (response_body response)
              \<longrightarrow> length (records response ! i) = items_per_record response * 4 - 1))
   \<and> (4 * message_length response \<le> length (response_body response) \<longrightarrow>
        (\<forall>i<number_of_records response.
           length (records response ! i) = items_per_record response * 4 - 1))
   \<and> (\<forall>response'.
         index response' 2 = index response 2
         \<and> message_length response' = message_length response
         \<and> fields_per_record response' = fields_per_record response
         \<and> take (number_of_records response * items_per_record response * 4 - 1)
               (response_body response')
             = take (number_of_records response * items_per_record response * 4 - 1)
                 (response_body response)
         \<longrightarrow> acoem_decode_logged_data response' = acoem_decode_logged_data response)"
proof -
  have 1: "0 < items_per_record response"
    using items_per_record_pos[of response] by simp
  have 2: "number_of_records response = message_length response div items_per_record response"
    by (simp add: number_of_records_def)
  note 3 = number_of_records_bounds[of response]
  have 4: "records response ! i
           = pyslice (response_body response) (i * items_per_record response * 4)
               ((i + 1) * (items_per_record response * 4) - 1)
         \<and> records response ! i
             = take (items_per_record response * 4 - 1)
                 (pyslice (response_body response) (i * items_per_record response * 4)
                    ((i + 1) * (items_per_record response * 4)))
         \<and> ((i + 1) * (items_per_record response * 4) - 1 \<le> length (response_body response)
              \<longrightarrow> length (records response ! i) = items_per_record response * 4 - 1)"
    if "i < number_of_records response" for i
    using nth_records[OF that] record_is_window_prefix[of "response_body response" i "items_per_record response"]
      length_record[of i "items_per_record response" "response_body response"]
    by simp
  have 5: "length (records response ! i) = items_per_record response * 4 - 1"
    if "4 * message_length response \<le> length (response_body response)"
       "i < number_of_records response" for i
  proof -
    have "(i + 1) * items_per_record response
            \<le> number_of_records response * items_per_record response"
      using that(2) by (intro mult_le_mono1) simp
    then have "(i + 1) * items_per_record response \<le> message_length response"
      using 3 by simp
    then have "(i + 1) * (items_per_record response * 4) - 1 \<le> length (response_body response)"
      using that(1) by simp
    then show ?thesis
      using 4[OF that(2)] by blast
  qed
  show ?thesis
    using 1 2 3 4 5 length_records[of response] decode_depends_on_prefix[of _ response]
    by blast
qed

theorem C5_record_partitioning_witness:
  "message_length logged_example = 13
   \<and> items_per_record logged_example = 6
   \<and> number_of_records logged_example = 2
   \<and> length (records logged_example) = 2
   \<and> length (records logged_example ! 1) = 23
   \<and> acoem_decode_logged_data logged_example_other_tail = acoem_decode_logged_data logged_example
   \<and> acoem_decode_logged_data logged_example
       = Inr [[], [],
              [(KInt 1001, VFloat 1095237632), (KInt 3, VBytes []),
               (KStr ''dtm'', VStr ''20240430150500''), (KStr ''logging_interval'', VInt 60)]]"
proof -
  let ?r = "logged_example"
  let ?r' = "logged_example_other_tail"
  note t = C5_record_partitioning[of ?r]
  have m: "message_length ?r = 13"
    by code_simp
  have i: "items_per_record ?r = 6"
    by code_simp
  have n: "number_of_records ?r = 2"
    by code_simp
  have a: "index ?r' 2 = index ?r 2"
    by code_simp
  have b: "message_length ?r' = message_length ?r"
    by code_simp
  have c: "fields_per_record ?r' = fields_per_record ?r"
    by code_simp
  have d: "take (number_of_records ?r * items_per_record ?r * 4 - 1) (response_body ?r')
             = take (number_of_records ?r * items_per_record ?r * 4 - 1) (response_body ?r)"
    by code_simp
  have l: "(1 + 1) * (items_per_record ?r * 4) - 1 \<le> length (response_body ?r)"
    by code_simp
  have 1: "length (records ?r) = 2"
    using t n by simp
  have "(1::nat) < number_of_records ?r"
    using n by simp
  with t l have 2: "length (records ?r ! 1) = items_per_record ?r * 4 - 1"
    by blast
  have 3: "acoem_decode_logged_data ?r' = acoem_decode_logged_data ?r"
    using t a b c d by blast
  have 4: "acoem_decode_logged_data ?r
           = Inr [[], [],
                  [(KInt 1001, VFloat 1095237632), (KInt 3, VBytes []),
                   (KStr ''dtm'', VStr ''20240430150500''), (KStr ''logging_interval'', VInt 60)]]"
    by code_simp
  show ?thesis
    using m i n 1 2 3 4 by simp
qed

subsection \<open>Timestamp decoder\<close>

lemma acoem_timestamp_fields_eq:
  "acoem_timestamp_fields ts
     = (ts div 67108864 + 2000, ts div 4194304 mod 16, ts div 131072 mod 32,
        ts div 4096 mod 32, ts div 64 mod 64, ts mod 64)"
proof -
  have 1: "ts div 64 div 64 = ts div 4096"
    using zdiv_zmult2_eq[of 64 ts 64] by simp
  have 2: "ts div 4096 div 32 = ts div 131072"
    using zdiv_zmult2_eq[of 32 ts 4096] by simp
  have 3: "ts div 131072 div 32 = ts div 4194304"
    using zdiv_zmult2_eq[of 32 ts 131072] by simp
  have 4: "ts div 4194304 div 16 = ts div 67108864"
    using zdiv_zmult2_eq[of 16 ts 4194304] by simp
  show ?thesis
    unfolding acoem_timestamp_fields_def Let_def 1 2 3 4 ..
qed

text \<open>
  C7 (as stated): an input whose fields are no calendar date makes
  \<open>_acoem_timestamp_to_datetime\<close> fail, and the failure reaches the caller. It does
  not: for the input 0 (month 0, day 0) and for 1564344320 (the 31st of April 2023)
  the function returns \<open>datetime.datetime(1111, 1, 1)\<close>; the ValueError of the
  constructor is only logged and printed.
\<close>

theorem C7_counterexample:
  "acoem_timestamp_fields 0 = (2000, 0, 0, 0, 0, 0)
   \<and> acoem_timestamp_to_datetime 0 = (datetime_1111, [ValueError])
   \<and> acoem_timestamp_fields 1564344320 = (2023, 4, 31, 0, 0, 0)
   \<and> acoem_timestamp_to_datetime 1564344320 = (datetime_1111, [ValueError])"
  by code_simp

text \<open>
  C7 (amended): for every input whose extracted fields (year = bits 26 and up plus
  2000, month = bits 22..25, day = bits 17..21, hour = bits 12..16, minute = bits
  6..11, second = bits 0..5) do not form a valid date and time, the constructor raises
  ValueError inside \<open>_acoem_timestamp_to_datetime\<close>, whose handler logs and prints it
  and returns the fixed value \<open>datetime.datetime(1111, 1, 1)\<close>: the caller gets this
  value and no error.
\<close>

theorem C7_timestamp_sentinel:
  assumes "y = timestamp div 67108864 + 2000"
      and "m = timestamp div 4194304 mod 16"
      and "d = timestamp div 131072 mod 32"
      and "H = timestamp div 4096 mod 32"
      and "M = timestamp div 64 mod 64"
      and "S = timestamp mod 64"
      and "\<not> (1 \<le> m \<and> m \<le> 12 \<and> 1 \<le> d \<and> d \<le> days_in_month y m
              \<and> H \<le> 23 \<and> M \<le> 59 \<and> S \<le> 59)"
  shows "acoem_timestamp_to_datetime_try timestamp = Inl ValueError
         \<and> acoem_timestamp_to_datetime timestamp = (datetime_1111, [ValueError])"
proof -
  have "mk_datetime y m d H M S = Inl ValueError"
    using assms(7) by (auto simp add: mk_datetime_def)
  then have "acoem_timestamp_to_datetime_try timestamp = Inl ValueError"
    unfolding acoem_timestamp_to_datetime_try_def acoem_timestamp_fields_eq assms(1-6)[symmetric]
    by simp
  then show ?thesis
    by (simp add: acoem_timestamp_to_datetime_def)
qed

theorem C7_timestamp_sentinel_witness:
  "acoem_timestamp_to_datetime_try 1564344320 = Inl ValueError
   \<and> acoem_timestamp_to_datetime 1564344320 = (datetime_1111, [ValueError])"
proof -
  have y: "(2023::int) = 1564344320 div 67108864 + 2000" by code_simp
  have m: "(4::int) = 1564344320 div 4194304 mod 16" by code_simp
  have d: "(31::int) = 1564344320 div 131072 mod 32" by code_simp
  have H: "(0::int) = 1564344320 div 4096 mod 32" by code_simp
  have M: "(0::int) = 1564344320 div 64 mod 64" by code_simp
  have S: "(0::int) = 1564344320 mod 64" by code_simp
  have bad: "\<not> (1 \<le> (4::int) \<and> (4::int) \<le> 12 \<and> 1 \<le> (31::int) \<and> 31 \<le> days_in_month 2023 4
              \<and> (0::int) \<le> 23 \<and> (0::int) \<le> 59 \<and> (0::int) \<le> 59)"
    by (simp add: days_in_month_def)
  show ?thesis
    by (rule C7_timestamp_sentinel[OF y m d H M S bad])
qed

subsection \<open>Operating state, legacy dialect\<close>

lemma map_of_mapping:
  "map_of mapping response
     = (if response = ''000'' then Some 0 else if response = ''016'' then Some 2
        else if response = ''032'' then Some 1 else None)"
  by (simp add: mapping_def)

lemma mapping_getitem_eq:
  "mapping_getitem response
     = (if response = ''000'' then Inr 0 else if response = ''016'' then Inr 2
        else if response = ''032'' then Inr 1 else Inl KeyError)"
  by (simp add: mapping_getitem_def map_of_mapping)

text \<open>
  C8 (as stated): every response string other than "000", "016" and "032" makes
  \<open>get_current_operation\<close> fail. It does not: when the instrument answers "001",
  the function returns 9.
\<close>

theorem C8_counterexample:
  "tcpip_comm ''legacy'' (legacy_operation_message 0)
       (Connected [Data [13, 10], Data [48, 48, 49, 13, 10]])
     = ([legacy_operation_message 0], Some [48, 48, 49])
   \<and> decode [48, 48, 49] = Inr ''001''
   \<and> get_current_operation ''legacy'' 0 (Connected [Data [13, 10], Data [48, 48, 49, 13, 10]])
       = ([legacy_operation_message 0], 9)"
  by code_simp

text \<open>
  C8 (amended): under the legacy protocol \<open>get_current_operation\<close> returns 0 when
  the response string (the stripped, decoded answer to the VI..71 query) is "000", 2
  when it is "016" and 1 when it is "032"; for every other response string the lookup
  raises KeyError inside the function, whose handler logs and prints it and returns 9,
  the value its docstring gives for an error.
\<close>

theorem C8_legacy_operation:
  assumes "tcpip_comm ''legacy'' (legacy_operation_message serial_id) conn = (sent, Some b)"
      and "decode b = Inr response"
  shows "get_current_operation ''legacy'' serial_id conn
           = (sent, if response = ''000'' then 0 else if response = ''016'' then 2
                    else if response = ''032'' then 1 else 9)
         \<and> (response \<noteq> ''000'' \<and> response \<noteq> ''016'' \<and> response \<noteq> ''032'' \<longrightarrow>
              get_current_operation_try ''legacy'' serial_id conn = (sent, Inl KeyError))"
proof -
  have t: "get_current_operation_try ''legacy'' serial_id conn = (sent, mapping_getitem response)"
    using assms by (simp add: get_current_operation_try_def legacy_operation_of_def)
  show ?thesis
    unfolding get_current_operation_def t by (simp add: mapping_getitem_eq)
qed

theorem C8_legacy_operation_witness:
  "get_current_operation ''legacy'' 0 (Connected [Data [13, 10], Data [48, 49, 54, 13, 10]])
     = ([legacy_operation_message 0], 2)
   \<and> get_current_operation ''legacy'' 0 (Connected [Data [13, 10], Data [48, 48, 49, 13, 10]])
     = ([legacy_operation_message 0], 9)"
proof -
  have 1: "tcpip_comm ''legacy'' (legacy_operation_message 0)
             (Connected [Data [13, 10], Data [48, 49, 54, 13, 10]])
           = ([legacy_operation_message 0], Some [48, 49, 54])"
    by code_simp
  have 2: "decode [48, 49, 54] = Inr ''016''"
    by code_simp
  have 3: "tcpip_comm ''legacy'' (legacy_operation_message 0)
             (Connected [Data [13, 10], Data [48, 48, 49, 13, 10]])
           = ([legacy_operation_message 0], Some [48, 48, 49])"
    by code_simp
  have 4: "decode [48, 48, 49] = Inr ''001''"
    by code_simp
  show ?thesis
    using C8_legacy_operation[OF 1 2] C8_legacy_operation[OF 3 4] by simp
qed

subsection \<open>\<open>set_values\<close>\<close>

lemma bytes_of_ints_payload:
  "0 \<le> v \<Longrightarrow> v < 256 \<Longrightarrow> bytes_of_ints [0, 0, 0, v] = Inr [0, 0, 0, word_of_int v]"
  by (simp add: bytes_of_ints_def)

lemma set_values_message_eq:
  assumes "0 \<le> serial_id" "serial_id < 256" "0 < parameter_id" "parameter_id < 4294967296"
      and "0 \<le> val" "val < 256"
      and "msg = [2, word_of_int serial_id, 5, 3, 0, 8,
                 word_of_int (parameter_id div 16777216), word_of_int (parameter_id div 65536),
                 word_of_int (parameter_id div 256), word_of_int parameter_id,
                 0, 0, 0, word_of_int val]"
  shows "set_values_message serial_id parameter_id val = Inr (msg @ [foldl (XOR) 0 msg] @ [4])"
proof -
  have "acoem_construct_message serial_id 5 parameter_id [0, 0, 0, word_of_int val]
          = Inr (msg @ [foldl (XOR) 0 msg] @ [4])"
    using assms
    by (intro acoem_construct_message_general[where msg_data = "[word_of_int (parameter_id div 16777216), word_of_int (parameter_id div 65536),
                 word_of_int (parameter_id div 256), word_of_int parameter_id,
                 0, 0, 0, word_of_int val]"]) simp_all
  then show ?thesis
    using assms(5,6) by (simp add: set_values_message_def bytes_of_ints_payload)
qed

lemma tcpip_comm_sent:
  "tcpip_comm protocol message (Connected (Data cleared # es)) = (sent, returned) \<Longrightarrow>
   sent = [message]"
  by (auto simp add: tcpip_comm_def Let_def split: if_splits)

text \<open>
  C9 (as stated): for every value that fits an unsigned 32-bit integer a command-5
  frame is built, and under the legacy protocol the operation fails. Neither holds:
  for the value 256 the payload \<open>bytes([0,0,0,value])\<close> raises ValueError, no frame is
  built, nothing is sent and \<open>[]\<close> is returned; under the legacy protocol \<open>[]\<close> is
  returned as well.
\<close>

theorem C9_counterexample:
  "set_values_message 0 4035 256 = Inl ValueError
   \<and> set_values ''acoem'' 0 4035 256 (Connected [Data [13, 10], Data [2, 0, 5, 3, 0, 0, 4, 4]]) = ([], [])
   \<and> set_values ''legacy'' 0 4035 2 (Connected [Data [13, 10], Data [13, 10]]) = ([], [])"
  by code_simp

text \<open>
  C9 (amended): for a station id in 0..255, a parameter id from 1 to 2^32 - 1 and a
  value from 0 to 255, \<open>set_values\<close> under the binary protocol builds the command-5
  frame whose message data is the 4-byte big-endian parameter id followed by
  [0, 0, 0, value], the 4-byte big-endian encoding of the value, and sends it once the
  connection is set up. Under the legacy protocol the function raises a Warning
  inside its own \<open>try\<close>, sends nothing and returns \<open>[]\<close>.
\<close>

theorem C9_set_values:
  assumes "0 \<le> serial_id" "serial_id < 256" "0 < parameter_id" "parameter_id < 4294967296"
      and "0 \<le> val" "val < 256"
      and "msg = [2, word_of_int serial_id, 5, 3, 0, 8,
                 word_of_int (parameter_id div 16777216), word_of_int (parameter_id div 65536),
                 word_of_int (parameter_id div 256), word_of_int parameter_id,
                 0, 0, 0, word_of_int val]"
  shows "set_values_message serial_id parameter_id val = Inr (msg @ [foldl (XOR) 0 msg] @ [4])
         \<and> from_bytes [word_of_int (parameter_id div 16777216), word_of_int (parameter_id div 65536),
                        word_of_int (parameter_id div 256), word_of_int parameter_id] = parameter_id
         \<and> from_bytes [0, 0, 0, word_of_int val] = val
         \<and> fst (set_values ''acoem'' serial_id parameter_id val (Connected (Data cleared # es)))
             = [msg @ [foldl (XOR) 0 msg] @ [4]]
         \<and> set_values_try ''legacy'' serial_id parameter_id val conn = ([], Inl Warning)
         \<and> set_values ''legacy'' serial_id parameter_id val conn = ([], [])"
proof -
  note m = set_values_message_eq[OF assms]
  have p: "from_bytes [word_of_int (parameter_id div 16777216), word_of_int (parameter_id div 65536),
                        word_of_int (parameter_id div 256), word_of_int parameter_id] = parameter_id"
    using assms(3,4) by (intro from_bytes_be4) simp_all
  have "val mod 256 = val"
    using assms(5,6) by simp
  then have v: "from_bytes [0, 0, 0, word_of_int val] = val"
    by (simp add: from_bytes_4 uint_byte_of_int)
  obtain sent returned where c:
    "tcpip_comm ''acoem'' (msg @ [foldl (XOR) 0 msg] @ [4]) (Connected (Data cleared # es))
       = (sent, returned)"
    by (cases "tcpip_comm ''acoem'' (msg @ [foldl (XOR) 0 msg] @ [4]) (Connected (Data cleared # es))")
  have s: "sent = [msg @ [foldl (XOR) 0 msg] @ [4]]"
    using tcpip_comm_sent[OF c] .
  have a: "fst (set_values ''acoem'' serial_id parameter_id val (Connected (Data cleared # es)))
             = [msg @ [foldl (XOR) 0 msg] @ [4]]"
    unfolding set_values_def set_values_try_def m using c s
    by (cases returned) simp_all
  have l: "set_values_try ''legacy'' serial_id parameter_id val conn = ([], Inl Warning)"
    by (simp add: set_values_try_def)
  then have l': "set_values ''legacy'' serial_id parameter_id val conn = ([], [])"
    by (simp add: set_values_def)
  show ?thesis
    using m p v a l l' by simp
qed

theorem C9_set_values_witness:
  "set_values_message 0 4035 2 = Inr [2, 0, 5, 3, 0, 8, 0, 0, 15, 195, 0, 0, 0, 2, 194, 4]
   \<and> fst (set_values ''acoem'' 0 4035 2 (Connected [Data [13, 10], Data [2, 0, 5, 3, 0, 0, 4, 4]]))
       = [[2, 0, 5, 3, 0, 8, 0, 0, 15, 195, 0, 0, 0, 2, 194, 4]]
   \<and> set_values ''legacy'' 0 4035 2 (Connected []) = ([], [])"
  using C9_set_values[of 0 4035 2 "[2, 0, 5, 3, 0, 8, 0, 0, 15, 195, 0, 0, 0, 2]"
          "[13, 10]" "[Data [2, 0, 5, 3, 0, 0, 4, 4]]" "Connected []"]
  by simp

subsection \<open>Logged-data decoder: the list returned\<close>

lemma decode_loop_length:
  "decode_loop rs keys data all = Inr out \<Longrightarrow>
   length out = length all + length rs \<and> take (length all) out = all"
proof (induction rs arbitrary: keys data all)
  case Nil
  then show ?case by simp
next
  case (Cons r rs)
  show ?case
  proof (cases "index r 0")
    case (Inl e)
    then show ?thesis using Cons.prems by simp
  next
    case (Inr t)
    show ?thesis
    proof (cases "t = 0")
      case True
      then obtain data' where d: "data_record keys r = Inr data'"
        and l: "decode_loop rs keys data' (all @ [data']) = Inr out"
        using Cons.prems Inr by (auto simp add: Let_def split: sum.splits)
      from Cons.IH[OF l] have "length out = length all + length (r # rs)"
        and "take (Suc (length all)) out = all @ [data']"
        by simp_all
      then show ?thesis
        by (metis append_eq_conv_conj length_append_singleton take_take min.absorb1 le_add1 plus_1_eq_Suc add.commute)
    next
      case False
      then have l: "decode_loop rs (if t = 1 then header_keys r else keys) data (all @ [data]) = Inr out"
        using Cons.prems Inr by (simp add: Let_def)
      from Cons.IH[OF l] have "length out = length all + length (r # rs)"
        and "take (Suc (length all)) out = all @ [data]"
        by simp_all
      then show ?thesis
        by (metis append_eq_conv_conj length_append_singleton take_take min.absorb1 le_add1 plus_1_eq_Suc add.commute)
    qed
  qed
qed


lemma nth_of_take_snoc:
  assumes "take (Suc n) out = xs @ [x]" "length xs = n"
  shows "out ! n = x"
proof -
  have "take (Suc n) out ! n = out ! n"
    by simp
  then show ?thesis
    using assms by (simp add: nth_append)
qed

lemma decode_loop_step:
  assumes "decode_loop (r # rs) keys data all = Inr out"
  obtains t data' where "index r 0 = Inr t"
    and "t = 0 \<longrightarrow> data_record keys r = Inr data'"
    and "t \<noteq> 0 \<longrightarrow> data' = data"
    and "decode_loop rs (if index r 0 = Inr 1 then header_keys r else keys) data' (all @ [data'])
           = Inr out"
proof (cases "index r 0")
  case (Inl e)
  then show ?thesis using assms by simp
next
  case (Inr t)
  show ?thesis
  proof (cases "t = 0")
    case True
    then obtain data' where "data_record keys r = Inr data'"
      and "decode_loop rs keys data' (all @ [data']) = Inr out"
      using assms Inr by (auto simp add: Let_def split: sum.splits)
    then show ?thesis
      using that[of t data'] Inr True by simp
  next
    case False
    then have "decode_loop rs (if t = 1 then header_keys r else keys) data (all @ [data]) = Inr out"
      using assms Inr by (simp add: Let_def)
    then show ?thesis
      using that[of t data] Inr False by simp
  qed
qed

lemma decode_loop_nth:
  assumes "decode_loop rs keys data all = Inr out" "all \<noteq> []" "last all = data"
      and "i < length rs"
  shows "(index (rs ! i) 0 = Inr 0 \<longrightarrow>
            data_record (keys_after (take i rs) keys) (rs ! i) = Inr (out ! (length all + i)))
         \<and> (index (rs ! i) 0 \<noteq> Inr 0 \<longrightarrow> out ! (length all + i) = out ! (length all + i - 1))"
  using assms
proof (induction rs arbitrary: keys data all i)
  case Nil
  then show ?case by simp
next
  case (Cons r rs)
  from Cons.prems(1) obtain t data' where t: "index r 0 = Inr t"
    and d0: "t = 0 \<longrightarrow> data_record keys r = Inr data'"
    and d1: "t \<noteq> 0 \<longrightarrow> data' = data"
    and l: "decode_loop rs (if index r 0 = Inr 1 then header_keys r else keys) data' (all @ [data'])
              = Inr out"
    by (rule decode_loop_step)
  have len: "take (Suc (length all)) out = all @ [data']"
    using decode_loop_length[OF l] by simp
  have here: "out ! length all = data'"
    using nth_of_take_snoc[OF len] by simp
  show ?case
  proof (cases i)
    case 0
    have "take (length all) out = all"
      using decode_loop_length[OF Cons.prems(1)] by simp
    then have "out ! (length all - 1) = all ! (length all - 1)"
      using Cons.prems(2) by (metis diff_less length_greater_0_conv less_one nth_take)
    then have prev: "out ! (length all - 1) = data"
      using Cons.prems(2,3) by (simp add: last_conv_nth)
    show ?thesis
      using 0 t d0 d1 here prev by auto
  next
    case (Suc j)
    have j: "j < length rs"
      using Cons.prems(4) Suc by simp
    have "(index (rs ! j) 0 = Inr 0 \<longrightarrow>
            data_record (keys_after (take j rs) (if index r 0 = Inr 1 then header_keys r else keys))
              (rs ! j) = Inr (out ! (length (all @ [data']) + j)))
         \<and> (index (rs ! j) 0 \<noteq> Inr 0 \<longrightarrow>
              out ! (length (all @ [data']) + j) = out ! (length (all @ [data']) + j - 1))"
      by (rule Cons.IH[OF l _ _ j]) simp_all
    then show ?thesis
      using Suc by simp
  qed
qed


lemma acoem_decode_logged_data_other:
  "index response 2 = Inr c \<Longrightarrow> c \<noteq> 7 \<Longrightarrow> acoem_decode_logged_data response = Inr [[]]"
  by (simp add: acoem_decode_logged_data_def)

lemma acoem_decode_logged_data_7:
  "index response 2 = Inr 7 \<Longrightarrow>
   acoem_decode_logged_data response = decode_loop (records response) [] [] [[]]"
  by (simp add: acoem_decode_logged_data_def)

lemma acoem_decode_logged_data_short:
  "length response < 3 \<Longrightarrow> acoem_decode_logged_data response = Inl IndexError"
  by (simp add: acoem_decode_logged_data_def index_def)

lemma acoem_decode_logged_data_shape:
  assumes "index response 2 = Inr 7" "acoem_decode_logged_data response = Inr out"
  shows "length out = number_of_records response + 1"
    and "out ! 0 = []"
    and "i < number_of_records response \<Longrightarrow> index (records response ! i) 0 = Inr 0 \<Longrightarrow>
         data_record (keys_after (take i (records response)) []) (records response ! i)
           = Inr (out ! (i + 1))"
    and "i < number_of_records response \<Longrightarrow> index (records response ! i) 0 \<noteq> Inr 0 \<Longrightarrow>
         out ! (i + 1) = out ! i"
proof -
  have l: "decode_loop (records response) [] [] [[]] = Inr out"
    using assms by (simp add: acoem_decode_logged_data_7)
  have a: "length out = length [[]::pydict] + length (records response)"
    and b: "take (length [[]::pydict]) out = [[]]"
    using decode_loop_length[OF l] by simp_all
  show "length out = number_of_records response + 1"
    using a by (simp add: length_records)
  have "0 < length out"
    using a by simp
  then show "out ! 0 = []"
    using b by (cases out) simp_all
  {
    assume i: "i < number_of_records response"
    then have i': "i < length (records response)"
      by (simp add: length_records)
    note n = decode_loop_nth[OF l _ _ i', simplified]
    {
      assume "index (records response ! i) 0 = Inr 0"
      then show "data_record (keys_after (take i (records response)) []) (records response ! i)
           = Inr (out ! (i + 1))"
        using n by simp
    }
    {
      assume "index (records response ! i) 0 \<noteq> Inr 0"
      then show "out ! (i + 1) = out ! i"
        using n by simp
    }
  }
qed

text \<open>
  C2 (as stated): a response to another command than 7 gives an empty sequence, and a
  response to command 7 gives one element per data record and none for a header
  record. Neither holds: for a command-4 response the list returned has one element,
  an empty dict; and \<open>logged_example\<close>, with one header and one data record, gives
  three elements, the second of which was appended for the header record.
\<close>

theorem C2_counterexample:
  "acoem_decode_logged_data [2, 0, 4, 3, 0, 0, 5, 4] = Inr [[]]
   \<and> number_of_records logged_example = 2
   \<and> index (records logged_example ! 0) 0 = Inr 1
   \<and> index (records logged_example ! 1) 0 = Inr 0
   \<and> acoem_decode_logged_data logged_example
       = Inr [[], [],
              [(KInt 1001, VFloat 1095237632), (KInt 3, VBytes []),
               (KStr ''dtm'', VStr ''20240430150500''), (KStr ''logging_interval'', VInt 60)]]"
  by code_simp

text \<open>
  C2 (amended): for every response of at least three bytes whose command byte at
  offset 2 is not 7, \<open>_acoem_decode_logged_data\<close> returns a list of one element, an
  empty dict. For a response with command byte 7 that is decoded without an
  exception, the list returned starts with an empty dict and then has exactly one
  element per record slice of the payload, in input order: for a data record
  (record-type byte 0) the dict decoded from it with the keys of the last header
  before it, and for any other record, a header record (record-type byte 1) among
  them, the element before it once more.
\<close>

theorem C2_decoder_output:
  "(index response 2 = Inr c \<and> c \<noteq> 7 \<longrightarrow> acoem_decode_logged_data response = Inr [[]])
   \<and> (index response 2 = Inr 7 \<and> acoem_decode_logged_data response = Inr out \<longrightarrow>
        length out = number_of_records response + 1
        \<and> out ! 0 = []
        \<and> (\<forall>i<number_of_records response.
              (index (records response ! i) 0 = Inr 0 \<longrightarrow>
                 data_record (keys_after (take i (records response)) []) (records response ! i)
                   = Inr (out ! (i + 1)))
              \<and> (index (records response ! i) 0 \<noteq> Inr 0 \<longrightarrow> out ! (i + 1) = out ! i)))"
  using acoem_decode_logged_data_other[of response c]
        acoem_decode_logged_data_shape[of response out]
  by blast

text \<open>
  C10 (as stated): for every byte input a non-empty list is returned. For the empty
  input (and any input of fewer than three bytes) \<open>response[2]\<close> raises IndexError,
  which the function does not catch.
\<close>

theorem C10_counterexample:
  "acoem_decode_logged_data [] = Inl IndexError
   \<and> acoem_decode_logged_data [2, 0] = Inl IndexError"
  by code_simp

text \<open>
  C10 (amended): an input of fewer than three bytes raises IndexError. For every input
  on which \<open>_acoem_decode_logged_data\<close> returns, the list returned is not empty and
  its first element is the empty dict with which the list is seeded; the dict decoded
  from the data record that is record slice i of the payload (counting all record
  slices from 0) is at position i + 1 of the list, not i.
\<close>

theorem C10_leading_empty_element:
  "(length response < 3 \<longrightarrow> acoem_decode_logged_data response = Inl IndexError)
   \<and> (acoem_decode_logged_data response = Inr out \<longrightarrow>
        out \<noteq> [] \<and> hd out = []
        \<and> (\<forall>i<number_of_records response.
              index response 2 = Inr 7 \<and> index (records response ! i) 0 = Inr 0 \<longrightarrow>
                Inr (out ! (i + 1))
                  = data_record (keys_after (take i (records response)) []) (records response ! i)))"
proof -
  have 1: "length response < 3 \<longrightarrow> acoem_decode_logged_data response = Inl IndexError"
    by (simp add: acoem_decode_logged_data_short)
  have 2: "out \<noteq> [] \<and> hd out = []" if r: "acoem_decode_logged_data response = Inr out"
  proof (cases "index response 2")
    case (Inl e)
    then show ?thesis
      using r by (simp add: acoem_decode_logged_data_def)
  next
    case (Inr c)
    show ?thesis
    proof (cases "c = 7")
      case True
      have "length out = number_of_records response + 1" "out ! 0 = []"
        using acoem_decode_logged_data_shape(1,2)[of response out] Inr True r by simp_all
      then show ?thesis
        by (cases out) simp_all
    next
      case False
      then show ?thesis
        using acoem_decode_logged_data_other[OF Inr False] r by simp
    qed
  qed
  have 3: "Inr (out ! (i + 1))
             = data_record (keys_after (take i (records response)) []) (records response ! i)"
    if "acoem_decode_logged_data response = Inr out" "i < number_of_records response"
       "index response 2 = Inr 7" "index (records response ! i) 0 = Inr 0" for i
    using acoem_decode_logged_data_shape(3)[OF that(3) that(1) that(2) that(4)] by simp
  show ?thesis
    using 1 2 3 by blast
qed


theorem C2_decoder_output_witness:
  "acoem_decode_logged_data [2, 0, 4, 3, 0, 0, 5, 4] = Inr [[]]
   \<and> acoem_decode_logged_data logged_example = Inr logged_example_decoded
   \<and> length logged_example_decoded = number_of_records logged_example + 1
   \<and> logged_example_decoded ! (0 + 1) = logged_example_decoded ! 0
   \<and> data_record (keys_after (take 1 (records logged_example)) []) (records logged_example ! 1)
       = Inr (logged_example_decoded ! (1 + 1))"
proof -
  let ?out = "logged_example_decoded"
  have a: "index [2, 0, 4, 3, 0, 0, 5, 4 :: byte] 2 = Inr 4"
    by code_simp
  have b: "index logged_example 2 = Inr 7"
    by code_simp
  have c: "acoem_decode_logged_data logged_example = Inr ?out"
    by code_simp
  have n: "number_of_records logged_example = 2"
    by code_simp
  have h: "index (records logged_example ! 0) 0 \<noteq> Inr 0"
    by code_simp
  have d: "index (records logged_example ! 1) 0 = Inr 0"
    by code_simp
  have 1: "acoem_decode_logged_data [2, 0, 4, 3, 0, 0, 5, 4] = Inr [[]]"
    using C2_decoder_output[of "[2, 0, 4, 3, 0, 0, 5, 4]" 4 "[]"] a by simp
  note t = C2_decoder_output[of logged_example 0 ?out]
  have 2: "length ?out = number_of_records logged_example + 1"
    using t b c by blast
  have i0: "(0::nat) < number_of_records logged_example" and i1: "(1::nat) < number_of_records logged_example"
    using n by simp_all
  have 3: "?out ! (0 + 1) = ?out ! 0"
    using t b c i0 h by blast
  have 4: "data_record (keys_after (take 1 (records logged_example)) []) (records logged_example ! 1)
       = Inr (?out ! (1 + 1))"
    using t b c i1 d by blast
  show ?thesis
    using 1 c 2 3 4 by blast
qed

theorem C10_leading_empty_element_witness:
  "acoem_decode_logged_data [2, 0] = Inl IndexError
   \<and> acoem_decode_logged_data logged_example = Inr logged_example_decoded
   \<and> logged_example_decoded \<noteq> []
   \<and> hd logged_example_decoded = []
   \<and> Inr (logged_example_decoded ! (1 + 1))
       = data_record (keys_after (take 1 (records logged_example)) []) (records logged_example ! 1)"
proof -
  let ?out = "logged_example_decoded"
  have b: "index logged_example 2 = Inr 7"
    by code_simp
  have c: "acoem_decode_logged_data logged_example = Inr ?out"
    by code_simp
  have n: "number_of_records logged_example = 2"
    by code_simp
  have d: "index (records logged_example ! 1) 0 = Inr 0"
    by code_simp
  have 1: "acoem_decode_logged_data [2, 0] = Inl IndexError"
    using C10_leading_empty_element[of "[2, 0]" "[]"] by simp
  note t = C10_leading_empty_element[of logged_example ?out]
  have 2: "?out \<noteq> [] \<and> hd ?out = []"
    using t c by blast
  have i1: "(1::nat) < number_of_records logged_example"
    using n by simp
  have 3: "Inr (?out ! (1 + 1))
       = data_record (keys_after (take 1 (records logged_example)) []) (records logged_example ! 1)"
    using t b c i1 d by blast
  show ?thesis
    using 1 c 2 3 by blast
qed

subsection \<open>Timestamp encoder and the round trip\<close>

lemma digit_char_0: "digit_char 0 = CHR ''0''"
  by code_simp

lemma digit_char_1: "digit_char (Suc 0) = CHR ''1''"
  by code_simp

lemma digit_char_bit: "n < 2 \<Longrightarrow> digit_char n = CHR ''0'' \<or> digit_char n = CHR ''1''"
  using digit_char_0 digit_char_1 by (cases n) (auto simp add: less_Suc_eq numeral_2_eq_2)

lemma bits_value_snoc:
  "bits_value (s @ [c]) = 2 * bits_value s + (if c = CHR ''1'' then 1 else 0)"
  by (simp add: bits_value_def)

lemma bits_value_append:
  "bits_value (xs @ ys) = bits_value xs * 2 ^ length ys + bits_value ys"
proof (induction ys rule: rev_induct)
  case Nil
  then show ?case by (simp add: bits_value_def)
next
  case (snoc c ys)
  have "bits_value (xs @ ys @ [c]) = 2 * bits_value (xs @ ys) + (if c = CHR ''1'' then 1 else 0)"
    using bits_value_snoc[of "xs @ ys" c] by simp
  then show ?case
    using snoc.IH bits_value_snoc[of ys c] by (simp add: algebra_simps)
qed

lemma bits_value_zeros: "bits_value (replicate k CHR ''0'') = 0"
  by (induction k) (simp_all add: bits_value_def)

lemma bits_value_digit: "n < 2 \<Longrightarrow> bits_value [digit_char n] = int n"
  using digit_char_0 digit_char_1
  by (cases n) (auto simp add: bits_value_def less_Suc_eq numeral_2_eq_2)

lemma bin_digits_props:
  "is_bits (bin_digits n) \<and> bin_digits n \<noteq> [] \<and> bits_value (bin_digits n) = int n"
proof (induction n rule: bin_digits.induct)
  case (1 n)
  show ?case
  proof (cases "n < 2")
    case True
    then show ?thesis
      using digit_char_bit[OF True] bits_value_digit[OF True]
      by (subst (1 2 3) bin_digits.simps) (auto simp add: is_bits_def)
  next
    case False
    have m: "n mod 2 < 2" by simp
    have e: "bin_digits n = bin_digits (n div 2) @ [digit_char (n mod 2)]"
      using False by (subst bin_digits.simps) simp
    have v: "bits_value [digit_char (n mod 2)] = int (n mod 2)"
      using bits_value_digit[OF m] .
    have "bits_value (bin_digits n) = int (n div 2) * 2 + int (n mod 2)"
      unfolding e bits_value_append using 1[OF False] v by simp
    also have "\<dots> = int n"
      by (simp add: zdiv_int zmod_int)
    finally show ?thesis
      using 1[OF False] digit_char_bit[OF m] unfolding e by (auto simp add: is_bits_def)
  qed
qed

lemma length_bin_digits_le: "n < 2 ^ w \<Longrightarrow> 0 < w \<Longrightarrow> length (bin_digits n) \<le> w"
proof (induction n arbitrary: w rule: bin_digits.induct)
  case (1 n)
  show ?case
  proof (cases "n < 2")
    case True
    then show ?thesis
      using "1.prems" by (subst bin_digits.simps) simp
  next
    case False
    then obtain v where w: "w = Suc v"
      using "1.prems" by (cases w) auto
    have "v \<noteq> 0"
      using False "1.prems" w by (cases v) auto
    moreover have "n div 2 < 2 ^ v"
      using "1.prems" w by auto
    ultimately have "length (bin_digits (n div 2)) \<le> v"
      using "1.IH"[OF False, of v] by simp
    then show ?thesis
      using False w by (subst bin_digits.simps) simp
  qed
qed

lemma bin_digits_rec:
  "2 \<le> k \<Longrightarrow> bin_digits k = bin_digits (k div 2) @ [digit_char (k mod 2)]"
  by (subst bin_digits.simps) simp

lemma length_bin_digits_ge: "8 \<le> n \<Longrightarrow> 4 \<le> length (bin_digits n)"
proof -
  assume n: "8 \<le> n"
  define a where "a = n div 2"
  define b where "b = a div 2"
  define c where "c = b div 2"
  have a: "4 \<le> a" using n by (simp add: a_def)
  then have b: "2 \<le> b" by (simp add: b_def)
  have "bin_digits c \<noteq> []"
    using bin_digits_props by simp
  then have "1 \<le> length (bin_digits c)"
    by (cases "bin_digits c") simp_all
  moreover have "length (bin_digits b) = length (bin_digits c) + 1"
    using bin_digits_rec[OF b] by (simp add: c_def)
  moreover have "length (bin_digits a) = length (bin_digits b) + 1"
    using bin_digits_rec[of a] a by (simp add: b_def)
  moreover have "length (bin_digits n) = length (bin_digits a) + 1"
    using bin_digits_rec[of n] n by (simp add: a_def)
  ultimately show ?thesis
    by simp
qed


lemma is_bits_append: "is_bits (xs @ ys) = (is_bits xs \<and> is_bits ys)"
  by (auto simp add: is_bits_def)

lemma is_bits_zeros: "is_bits (replicate k CHR ''0'')"
  by (simp add: is_bits_def)

lemma zfill_bits:
  assumes "s \<noteq> []" "is_bits s"
  shows "zfill s w = replicate (w - length s) CHR ''0'' @ s"
proof (cases s)
  case Nil
  then show ?thesis using assms by simp
next
  case (Cons c rest)
  then have "c = CHR ''0'' \<or> c = CHR ''1''"
    using assms(2) by (simp add: is_bits_def)
  then have "c \<noteq> CHR ''+''" "c \<noteq> CHR ''-''"
    by auto
  then show ?thesis
    using Cons by (simp add: zfill_def)
qed

lemma drop_2_bin: "0 \<le> x \<Longrightarrow> drop 2 (bin x) = bin_digits (nat x)"
  by (simp add: bin_def)

text \<open>A field of width w: \<open>bin(x)[2:].zfill(w)\<close>.\<close>

lemma field_bits:
  assumes "0 \<le> x" "x < 2 ^ w" "0 < w"
  shows "length (zfill (drop 2 (bin x)) w) = w"
    and "is_bits (zfill (drop 2 (bin x)) w)"
    and "bits_value (zfill (drop 2 (bin x)) w) = x"
proof -
  let ?d = "bin_digits (nat x)"
  have "nat x < 2 ^ w"
    using assms(1,2) by (simp add: nat_less_iff)
  then have l: "length ?d \<le> w"
    using assms(3) by (rule length_bin_digits_le)
  have z: "zfill (drop 2 (bin x)) w = replicate (w - length ?d) CHR ''0'' @ ?d"
    using bin_digits_props[of "nat x"] assms(1) by (simp add: drop_2_bin zfill_bits)
  show "length (zfill (drop 2 (bin x)) w) = w"
    unfolding z using l by simp
  show "is_bits (zfill (drop 2 (bin x)) w)"
    unfolding z using bin_digits_props[of "nat x"] by (simp add: is_bits_append is_bits_zeros)
  show "bits_value (zfill (drop 2 (bin x)) w) = x"
    unfolding z bits_value_append using bin_digits_props[of "nat x"] assms(1)
    by (simp add: bits_value_zeros)
qed

text \<open>The year field \<open>bin(x).zfill(6)\<close> for an offset x of at least 8.\<close>

lemma year_field:
  assumes "8 \<le> x"
  shows "zfill (bin x) 6 = ''0b'' @ bin_digits (nat x)"
proof -
  have "4 \<le> length (bin_digits (nat x))"
    using assms by (intro length_bin_digits_ge) simp
  then have "6 \<le> length (bin x)"
    using assms by (simp add: bin_def)
  then show ?thesis
    using assms by (simp add: zfill_def bin_def)
qed

lemma int_base2_prefixed:
  assumes "is_bits d" "d \<noteq> []"
  shows "int_base2 (''0b'' @ d) = Inr (bits_value d)"
  using assms by (simp add: int_base2_def unsigned_base2_def)


lemma unpack_step:
  fixes q r b :: int
  assumes "0 \<le> r" "r < b"
  shows "(q * b + r) div b = q" and "(q * b + r) mod b = r"
  using assms by simp_all

lemma fields_of_packed:
  assumes "0 \<le> S" "S < 64" "0 \<le> M" "M < 64" "0 \<le> H" "H < 32" "0 \<le> d" "d < 32"
      and "0 \<le> m" "m < 16"
  shows "acoem_timestamp_fields
           (x * 67108864 + m * 4194304 + d * 131072 + H * 4096 + M * 64 + S)
         = (x + 2000, m, d, H, M, S)"
proof -
  define n4 where "n4 = x * 16 + m"
  define n3 where "n3 = n4 * 32 + d"
  define n2 where "n2 = n3 * 32 + H"
  define n1 where "n1 = n2 * 64 + M"
  define n0 where "n0 = n1 * 64 + S"
  have n: "x * 67108864 + m * 4194304 + d * 131072 + H * 4096 + M * 64 + S = n0"
    by (simp add: n0_def n1_def n2_def n3_def n4_def)
  have 0: "n0 mod 64 = S" "n0 div 64 = n1"
    unfolding n0_def using unpack_step[OF assms(1,2)] by simp_all
  have 1: "n1 mod 64 = M" "n1 div 64 = n2"
    unfolding n1_def using unpack_step[OF assms(3,4)] by simp_all
  have 2: "n2 mod 32 = H" "n2 div 32 = n3"
    unfolding n2_def using unpack_step[OF assms(5,6)] by simp_all
  have 3: "n3 mod 32 = d" "n3 div 32 = n4"
    unfolding n3_def using unpack_step[OF assms(7,8)] by simp_all
  have 4: "n4 mod 16 = m" "n4 div 16 = x"
    unfolding n4_def using unpack_step[OF assms(9,10)] by simp_all
  show ?thesis
    unfolding n acoem_timestamp_fields_def Let_def 0 1 2 3 4 ..
qed

lemma encoded_value:
  fixes t :: datetime
  assumes "2008 \<le> year t"
      and "0 \<le> month t" "month t < 16" "0 \<le> day t" "day t < 32" "0 \<le> hour t" "hour t < 32"
      and "0 \<le> minute t" "minute t < 64" "0 \<le> second t" "second t < 64"
  shows "acoem_datetime_to_timestamp_try t
           = to_bytes ((year t - 2000) * 67108864 + month t * 4194304 + day t * 131072
                       + hour t * 4096 + minute t * 64 + second t) 4"
proof -
  define SS where "SS = zfill (drop 2 (bin (second t))) 6"
  define MM where "MM = zfill (drop 2 (bin (minute t))) 6"
  define HH where "HH = zfill (drop 2 (bin (hour t))) 5"
  define dd where "dd = zfill (drop 2 (bin (day t))) 5"
  define mm where "mm = zfill (drop 2 (bin (month t))) 4"
  define Y where "Y = bin_digits (nat (year t - 2000))"
  have SS: "length SS = 6" "is_bits SS" "bits_value SS = second t"
    unfolding SS_def using assms(10,11) by (simp_all add: field_bits)
  have MM: "length MM = 6" "is_bits MM" "bits_value MM = minute t"
    unfolding MM_def using assms(8,9) by (simp_all add: field_bits)
  have HH: "length HH = 5" "is_bits HH" "bits_value HH = hour t"
    unfolding HH_def using assms(6,7) by (simp_all add: field_bits)
  have dd: "length dd = 5" "is_bits dd" "bits_value dd = day t"
    unfolding dd_def using assms(4,5) by (simp_all add: field_bits)
  have mm: "length mm = 4" "is_bits mm" "bits_value mm = month t"
    unfolding mm_def using assms(2,3) by (simp_all add: field_bits)
  have Y: "is_bits Y" "Y \<noteq> []" "bits_value Y = year t - 2000"
    unfolding Y_def using bin_digits_props[of "nat (year t - 2000)"] assms(1) by simp_all
  have yf: "zfill (bin (year t - 2000)) 6 = ''0b'' @ Y"
    unfolding Y_def using assms(1) by (intro year_field) simp
  have bits: "is_bits (Y @ mm @ dd @ HH @ MM @ SS)" "Y @ mm @ dd @ HH @ MM @ SS \<noteq> []"
    using Y SS MM HH dd mm by (simp_all add: is_bits_append)
  have v: "bits_value (Y @ mm @ dd @ HH @ MM @ SS)
             = (year t - 2000) * 67108864 + month t * 4194304 + day t * 131072
                + hour t * 4096 + minute t * 64 + second t"
    unfolding bits_value_append using Y SS MM HH dd mm by simp
  have "int_base2 (zfill (bin (year t - 2000)) 6 @ mm @ dd @ HH @ MM @ SS)
          = Inr (bits_value (Y @ mm @ dd @ HH @ MM @ SS))"
    unfolding yf using int_base2_prefixed[OF bits] by simp
  then show ?thesis
    unfolding acoem_datetime_to_timestamp_try_def Let_def
      SS_def[symmetric] MM_def[symmetric] HH_def[symmetric] dd_def[symmetric] mm_def[symmetric] v
    by simp
qed

text \<open>
  C1: decoding the encoded timestamp gives the datetime back for every year from 2000
  to 2063. The code does not do this for the years 2000 to 2007: the year field is
  \<open>bin(year - 2000).zfill(6)\<close>, without the \<open>[2:]\<close> that the five other fields have,
  so for a year offset below 8 \<open>zfill\<close> puts zeros in front of the prefix \<open>0b\<close> and
  \<open>int(..., base=2)\<close> raises ValueError. For 1 January 2000, 00:00:00 the encoder
  returns \<open>b''\<close>, which reads as 0, and the decoder returns
  \<open>datetime.datetime(1111, 1, 1)\<close>.
\<close>

theorem C1_year_2000:
  "zfill (bin (2000 - 2000)) 6 = ''0000b0''
   \<and> acoem_datetime_to_timestamp_try
        \<lparr>year = 2000, month = 1, day = 1, hour = 0, minute = 0, second = 0, microsecond = 0\<rparr>
       = Inl ValueError
   \<and> acoem_datetime_to_timestamp
        \<lparr>year = 2000, month = 1, day = 1, hour = 0, minute = 0, second = 0, microsecond = 0\<rparr>
       = []
   \<and> acoem_timestamp_to_datetime (from_bytes (acoem_datetime_to_timestamp
        \<lparr>year = 2000, month = 1, day = 1, hour = 0, minute = 0, second = 0, microsecond = 0\<rparr>))
       = (datetime_1111, [ValueError])"
  by code_simp

lemma days_in_month_le: "days_in_month y m \<le> 31"
  by (simp add: days_in_month_def)

text \<open>
  The same happens for every year from 2000 to 2007, whatever the other fields are:
  the year field starts with two zeros and holds the letter b.
\<close>

lemma year_field_below_8:
  assumes "0 \<le> x" "x < 8"
  shows "\<exists>z. zfill (bin x) 6 = CHR ''0'' # CHR ''0'' # z \<and> CHR ''b'' \<in> set z"
proof -
  have z: "zfill (bin 0) 6 = ''0000b0''" "zfill (bin 1) 6 = ''0000b1''"
    "zfill (bin 2) 6 = ''000b10''" "zfill (bin 3) 6 = ''000b11''"
    "zfill (bin 4) 6 = ''00b100''" "zfill (bin 5) 6 = ''00b101''"
    "zfill (bin 6) 6 = ''00b110''" "zfill (bin 7) 6 = ''00b111''"
    by code_simp+
  consider "x = 0" | "x = 1" | "x = 2" | "x = 3" | "x = 4" | "x = 5" | "x = 6" | "x = 7"
    using assms by arith
  then show ?thesis
  proof cases
    case 1
    show ?thesis unfolding 1 z by (rule exI[of _ "''00b0''"]) simp
  next
    case 2
    show ?thesis unfolding 2 z by (rule exI[of _ "''00b1''"]) simp
  next
    case 3
    show ?thesis unfolding 3 z by (rule exI[of _ "''0b10''"]) simp
  next
    case 4
    show ?thesis unfolding 4 z by (rule exI[of _ "''0b11''"]) simp
  next
    case 5
    show ?thesis unfolding 5 z by (rule exI[of _ "''b100''"]) simp
  next
    case 6
    show ?thesis unfolding 6 z by (rule exI[of _ "''b101''"]) simp
  next
    case 7
    show ?thesis unfolding 7 z by (rule exI[of _ "''b110''"]) simp
  next
    case 8
    show ?thesis unfolding 8 z by (rule exI[of _ "''b111''"]) simp
  qed
qed

lemma not_is_bits_letter:
  assumes "CHR ''b'' \<in> set s"
  shows "\<not> is_bits s"
proof
  assume "is_bits s"
  then have "CHR ''b'' = CHR ''0'' \<or> CHR ''b'' = CHR ''1''"
    using assms unfolding is_bits_def by (rule bspec)
  then show False
    by simp
qed

lemma int_base2_letter:
  assumes "CHR ''b'' \<in> set z"
  shows "int_base2 (CHR ''0'' # CHR ''0'' # z @ rest) = Inl ValueError"
proof -
  let ?s = "CHR ''0'' # CHR ''0'' # z @ rest"
  have "CHR ''b'' \<in> set ?s"
    using assms by simp
  then have nb: "\<not> is_bits ?s"
    by (rule not_is_bits_letter)
  have t: "take 2 ?s = ''00''"
    by simp
  have "unsigned_base2 ?s = Inl ValueError"
    unfolding unsigned_base2_def t Let_def using nb by simp
  moreover have "int_base2 ?s = unsigned_base2 ?s"
    unfolding int_base2_def by simp
  ultimately show ?thesis
    by simp
qed

lemma encoder_fails_2000_to_2007:
  fixes t :: datetime
  assumes "2000 \<le> year t" "year t \<le> 2007"
  shows "acoem_datetime_to_timestamp_try t = Inl ValueError"
    and "acoem_datetime_to_timestamp t = []"
    and "acoem_timestamp_to_datetime (from_bytes (acoem_datetime_to_timestamp t))
           = (datetime_1111, [ValueError])"
proof -
  obtain z where z: "zfill (bin (year t - 2000)) 6 = CHR ''0'' # CHR ''0'' # z"
    and b: "CHR ''b'' \<in> set z"
    using year_field_below_8[of "year t - 2000"] assms by auto
  show 1: "acoem_datetime_to_timestamp_try t = Inl ValueError"
    unfolding acoem_datetime_to_timestamp_try_def Let_def z
    using int_base2_letter[OF b] by simp
  then show 2: "acoem_datetime_to_timestamp t = []"
    by (simp add: acoem_datetime_to_timestamp_def)
  have "acoem_timestamp_to_datetime 0 = (datetime_1111, [ValueError])"
    by code_simp
  then show "acoem_timestamp_to_datetime (from_bytes (acoem_datetime_to_timestamp t))
           = (datetime_1111, [ValueError])"
    unfolding 2 by (simp add: from_bytes_def)
qed

text \<open>
  From 2008 on the round trip holds: for every datetime with a year from 2008 to 2063,
  valid month, day, hour, minute and second and microsecond 0, the encoder returns the
  four bytes of the packed value and the decoder returns the datetime, printing
  nothing.
\<close>

theorem timestamp_round_trip_from_2008:
  fixes t :: datetime
  assumes "2008 \<le> year t" "year t \<le> 2063"
      and "1 \<le> month t" "month t \<le> 12"
      and "1 \<le> day t" "day t \<le> days_in_month (year t) (month t)"
      and "0 \<le> hour t" "hour t \<le> 23"
      and "0 \<le> minute t" "minute t \<le> 59"
      and "0 \<le> second t" "second t \<le> 59"
      and "microsecond t = 0"
  shows "acoem_timestamp_to_datetime (from_bytes (acoem_datetime_to_timestamp t)) = (t, [])"
proof -
  define n where "n = (year t - 2000) * 67108864 + month t * 4194304 + day t * 131072
                       + hour t * 4096 + minute t * 64 + second t"
  have d31: "day t \<le> 31"
    using assms(6) days_in_month_le[of "year t" "month t"] by simp
  have e: "acoem_datetime_to_timestamp_try t = to_bytes n 4"
    unfolding n_def using assms d31 by (intro encoded_value) simp_all
  have n0: "0 \<le> n"
    unfolding n_def using assms by simp
  have n1: "n < 4294967296"
    unfolding n_def using assms d31 by simp
  have "acoem_datetime_to_timestamp t
          = [word_of_int (n div 16777216), word_of_int (n div 65536),
             word_of_int (n div 256), word_of_int n]"
    unfolding acoem_datetime_to_timestamp_def e to_bytes_4[OF n0 n1] by simp
  then have f: "from_bytes (acoem_datetime_to_timestamp t) = n"
    using from_bytes_be4[OF n0 n1] by simp
  have fields: "acoem_timestamp_fields n
                  = (year t, month t, day t, hour t, minute t, second t)"
    unfolding n_def
    using fields_of_packed[of "second t" "minute t" "hour t" "day t" "month t" "year t - 2000"]
      assms d31 by simp
  have "mk_datetime (year t) (month t) (day t) (hour t) (minute t) (second t) = Inr t"
    using assms by (simp add: mk_datetime_def)
  then have "acoem_timestamp_to_datetime_try n = Inr t"
    by (simp add: acoem_timestamp_to_datetime_try_def fields)
  then show ?thesis
    unfolding f by (simp add: acoem_timestamp_to_datetime_def)
qed

theorem timestamp_round_trip_from_2008_witness:
  "acoem_datetime_to_timestamp
      \<lparr>year = 2023, month = 9, day = 11, hour = 18, minute = 11, second = 12, microsecond = 0\<rparr>
     = [94, 87, 34, 204]
   \<and> acoem_timestamp_to_datetime (from_bytes (acoem_datetime_to_timestamp
      \<lparr>year = 2023, month = 9, day = 11, hour = 18, minute = 11, second = 12, microsecond = 0\<rparr>))
     = (\<lparr>year = 2023, month = 9, day = 11, hour = 18, minute = 11, second = 12,
          microsecond = 0\<rparr>, [])"
proof -
  have 1: "acoem_datetime_to_timestamp
      \<lparr>year = 2023, month = 9, day = 11, hour = 18, minute = 11, second = 12, microsecond = 0\<rparr>
     = [94, 87, 34, 204]"
    by code_simp
  have 2: "acoem_timestamp_to_datetime (from_bytes (acoem_datetime_to_timestamp
      \<lparr>year = 2023, month = 9, day = 11, hour = 18, minute = 11, second = 12, microsecond = 0\<rparr>))
     = (\<lparr>year = 2023, month = 9, day = 11, hour = 18, minute = 11, second = 12,
          microsecond = 0\<rparr>, [])"
    by (rule timestamp_round_trip_from_2008) (simp_all add: days_in_month_def)
  show ?thesis
    using 1 2 by simp
qed

subsection \<open>Reading the response\<close>

text \<open>
  C3: under the binary protocol every buffer returned by \<open>tcpip_comm\<close> ends with
  0x04, the loop reading on until it does. The code does not do this: the \<open>return\<close>
  is inside the loop, so the first chunk received is returned whatever its last byte
  is. Below, the answer arrives in two chunks and the first one, [2, 5, 1, 3], is
  returned. The loop of the legacy protocol, which has its \<open>return\<close> after the loop,
  reads both chunks of its answer.
\<close>

theorem C3_returns_after_first_chunk:
  "tcpip_comm ''acoem'' [2, 5, 1, 3, 0, 0, 5, 4]
       (Connected [Data [13, 10], Data [2, 5, 1, 3], Data [0, 0, 5, 4]])
     = ([[2, 5, 1, 3, 0, 0, 5, 4]], Some [2, 5, 1, 3])
   \<and> \<not> endswith [2, 5, 1, 3] [4]
   \<and> tcpip_comm ''legacy'' [73, 68, 48, 13]
       (Connected [Data [13, 10], Data [78, 69], Data [51, 48, 48, 13, 10]])
     = ([[73, 68, 48, 13]], Some [78, 69, 51, 48, 48])"
  by code_simp

lemma legacy_read_accumulates:
  "legacy_read rcvd es = Inr r \<Longrightarrow>
   \<exists>k\<le>length es.
     r = rcvd @ received (take k es)
     \<and> (endswith r [13, 10] \<or> endswith r [13, 10, 10])
     \<and> (\<forall>j<k. \<not> (endswith (rcvd @ received (take j es)) [13, 10]
                  \<or> endswith (rcvd @ received (take j es)) [13, 10, 10]))"
proof (induction es arbitrary: rcvd)
  case Nil
  then show ?case
    by (auto split: if_splits)
next
  case (Cons ev es)
  show ?case
  proof (cases "endswith rcvd [13, 10] \<or> endswith rcvd [13, 10, 10]")
    case True
    then have "r = rcvd"
      using Cons.prems by auto
    then show ?thesis
      using True by (intro exI[of _ 0]) simp
  next
    case False
    then obtain d where ev: "ev = Data d" and l: "legacy_read (rcvd @ d) es = Inr r"
      using Cons.prems by (cases ev) auto
    from Cons.IH[OF l] obtain k where k: "k \<le> length es"
      "r = (rcvd @ d) @ received (take k es)"
      "endswith r [13, 10] \<or> endswith r [13, 10, 10]"
      "\<forall>j<k. \<not> (endswith ((rcvd @ d) @ received (take j es)) [13, 10]
                  \<or> endswith ((rcvd @ d) @ received (take j es)) [13, 10, 10])"
      by blast
    have "\<not> (endswith (rcvd @ received (take j (ev # es))) [13, 10]
                  \<or> endswith (rcvd @ received (take j (ev # es))) [13, 10, 10])"
      if "j < Suc k" for j
    proof (cases j)
      case 0
      then show ?thesis using False by simp
    next
      case (Suc i)
      then show ?thesis using k(4) that ev by simp
    qed
    then show ?thesis
      using k(1,2,3) ev by (intro exI[of _ "Suc k"]) simp
  qed
qed

text \<open>
  Under the legacy protocol, once the connection is set up and the first \<open>recv\<close> has
  returned, the message is sent and the loop reads on: what \<open>tcpip_comm\<close> returns is
  \<open>b''\<close> (an exception was caught) or the stripped concatenation of the first k
  chunks, where k is the first number of chunks after which the buffer ends with CRLF
  or CRLF LF.
\<close>

theorem legacy_read_until_crlf:
  assumes "tcpip_comm ''legacy'' message (Connected (Data cleared # es)) = (sent, returned)"
  shows "sent = [message]
         \<and> (returned = Some []
             \<or> (\<exists>k\<le>length es.
                   returned = Some (strip (received (take k es)))
                   \<and> (endswith (received (take k es)) [13, 10]
                        \<or> endswith (received (take k es)) [13, 10, 10])
                   \<and> (\<forall>j<k. \<not> (endswith (received (take j es)) [13, 10]
                                \<or> endswith (received (take j es)) [13, 10, 10]))))"
proof (cases "legacy_read [] es")
  case (Inl e)
  then show ?thesis
    using assms by (auto simp add: tcpip_comm_def)
next
  case (Inr r)
  from legacy_read_accumulates[OF Inr] obtain k where "k \<le> length es"
    "r = received (take k es)"
    "endswith r [13, 10] \<or> endswith r [13, 10, 10]"
     "\<forall>j<k. \<not> (endswith (received (take j es)) [13, 10]
                  \<or> endswith (received (take j es)) [13, 10, 10])"
    by auto
  moreover have "sent = [message]" "returned = Some (strip r)"
    using assms Inr by (auto simp add: tcpip_comm_def)
  ultimately show ?thesis
    by blast
qed

theorem legacy_read_until_crlf_witness:
  "tcpip_comm ''legacy'' [73, 68, 48, 13]
       (Connected [Data [13, 10], Data [78, 69], Data [51, 48, 48, 13, 10]])
     = ([[73, 68, 48, 13]], Some [78, 69, 51, 48, 48])
   \<and> received (take 2 [Data [78, 69], Data [51, 48, 48, 13, 10]]) = [78, 69, 51, 48, 48, 13, 10]"
proof -
  have 1: "tcpip_comm ''legacy'' [73, 68, 48, 13]
       (Connected [Data [13, 10], Data [78, 69], Data [51, 48, 48, 13, 10]])
     = ([[73, 68, 48, 13]], Some [78, 69, 51, 48, 48])"
    by code_simp
  note t = legacy_read_until_crlf[OF 1]
  have 2: "received (take 2 [Data [78, 69], Data [51, 48, 48, 13, 10]]) = [78, 69, 51, 48, 48, 13, 10]"
    by code_simp
  show ?thesis
    using 1 2 t by simp
qed

end
